theory Spec2Isabelle
  imports Complex_Main "HOL-Library.AList" "HOL-Library.Char_ord" "HOL-Library.List_Lexorder"
    "HOL-Library.Log_Nat"
begin

section \<open>Go values\<close>

text \<open>
  A Go \<^verbatim>\<open>interface{}\<close> value as the YAML and JSON decoders build it: nil, a bool, an
  integer, a float64, a string, a \<^verbatim>\<open>[]interface{}\<close> or a \<^verbatim>\<open>map[string]interface{}\<close>.
  A Go map is modelled as an association list with lookup \<open>map_of\<close>; the order of the
  list stands for the (unspecified) order in which \<^verbatim>\<open>range\<close> visits the keys. The
  integer types of Go are all \<open>VInt\<close>; a float64 is a rational or one of the three values
  that are not finite (the negative zero is not told apart from zero). Maps whose keys
  are not strings, and timestamps, are left out.
\<close>

datatype float64 = Finite rat | PosInf | NegInf | NaN

datatype val =
    VNil
  | VBool bool
  | VInt int
  | VFloat float64
  | VStr string
  | VList "val list"
  | VMap "(string \<times> val) list"

type_synonym gomap = "(string \<times> val) list"

text \<open>An operation is a \<^verbatim>\<open>map[string]interface{}\<close>.\<close>

type_synonym operation = "(string \<times> val) list"

section \<open>Formatting\<close>

text \<open>The verb \<^verbatim>\<open>%d\<close> of package fmt: an integer in decimal.\<close>

definition digit_char :: "int \<Rightarrow> char" where
  "digit_char d =
     (if d = 0 then CHR 0x30 else if d = 1 then CHR 0x31 else if d = 2 then CHR 0x32
      else if d = 3 then CHR 0x33 else if d = 4 then CHR 0x34 else if d = 5 then CHR 0x35
      else if d = 6 then CHR 0x36 else if d = 7 then CHR 0x37 else if d = 8 then CHR 0x38
      else CHR 0x39)"

function itoa_digits :: "int \<Rightarrow> string" where
  "itoa_digits n =
     (if n < 10 then [digit_char n]
      else itoa_digits (n div 10) @ [digit_char (n mod 10)])"
  by pat_completeness auto
termination
  by (relation "measure nat") auto

declare itoa_digits.simps [simp del]

definition itoa :: "int \<Rightarrow> string" where
  "itoa i = (if i < 0 then CHR 0x2D # itoa_digits (- i) else itoa_digits i)"

section \<open>consul.go: the batch executor\<close>

definition maxOperationsPerTransaction :: nat where
  "maxOperationsPerTransaction = 64"

record TransactionError =
  OpIndex :: int
  What :: string

record TransactionResponse =
  Results :: "operation list"
  Errors :: "TransactionError list"

text \<open>
  A request of \<^verbatim>\<open>sendRequest\<close>: always a PUT with content type application/json, so
  the URL and the body identify it.
\<close>

record request =
  url :: string
  payload :: string

text \<open>
  What \<^verbatim>\<open>processResponse\<close> reads of a response: the status code and the result of
  \<^verbatim>\<open>io.ReadAll(resp.Body)\<close> (\<open>Inl\<close> the read error).
\<close>

record response =
  StatusCode :: int
  Body :: "string + string"

text \<open>
  The library calls of consul.go, taken as parameters: \<^verbatim>\<open>json.Marshal\<close> of a batch,
  \<^verbatim>\<open>json.MarshalIndent\<close> of one operation, \<^verbatim>\<open>json.Unmarshal\<close> into a
  \<^verbatim>\<open>TransactionResponse\<close>, \<^verbatim>\<open>http.NewRequest\<close> (the error it returns for a URL, if
  any) and \<^verbatim>\<open>client.Do\<close>, whose answer may depend on the requests made before.
\<close>

record env =
  json_Marshal :: "operation list \<Rightarrow> string + string"
  json_MarshalIndent :: "operation \<Rightarrow> string + string"
  json_Unmarshal_response :: "string \<Rightarrow> TransactionResponse option"
  http_NewRequest :: "string \<Rightarrow> string option"
  client_Do :: "request list \<Rightarrow> request \<Rightarrow> string + response"

text \<open>
  The effects of consul.go: the requests handed to \<^verbatim>\<open>client.Do\<close>, in order, and the
  lines written with \<^verbatim>\<open>log.Printf\<close>, in order.
\<close>

record world =
  requests :: "request list"
  logs :: "string list"

definition logf :: "string \<Rightarrow> world \<Rightarrow> world" where
  "logf line w = w\<lparr>logs := logs w @ [line]\<rparr>"

definition error_line :: "TransactionError \<Rightarrow> string" where
  "error_line e = ''[ERROR] Operation '' @ itoa (OpIndex e) @ '' failed: '' @ What e"

text \<open>A Go \<^verbatim>\<open>error\<close> is its message; \<open>None\<close> is nil.\<close>

definition formatTransactionErrors :: "TransactionError list \<Rightarrow> world \<Rightarrow> string option \<times> world" where
  "formatTransactionErrors errors w =
     (case errors of
        [] \<Rightarrow> (Some ''transaction failed with unknown error'', w)
      | e0 # _ \<Rightarrow>
          (Some (''transaction failed: operation '' @ itoa (OpIndex e0) @ '': '' @ What e0),
           fold (\<lambda>e. logf (error_line e)) errors w))"

definition handleTransactionConflict :: "env \<Rightarrow> string \<Rightarrow> int \<Rightarrow> world \<Rightarrow> string option \<times> world" where
  "handleTransactionConflict E body statusCode w =
     (case json_Unmarshal_response E body of
        Some result \<Rightarrow> formatTransactionErrors (Errors result) w
      | None \<Rightarrow>
          (Some (''transaction rolled back (status '' @ itoa statusCode @ ''): '' @ body), w))"

definition logSuccessDetails :: "env \<Rightarrow> int \<Rightarrow> string \<Rightarrow> world \<Rightarrow> world" where
  "logSuccessDetails E statusCode body w =
     (let w1 = logf (''[DEBUG] Transaction successful, status: '' @ itoa statusCode) w
      in case json_Unmarshal_response E body of
           None \<Rightarrow> w1
         | Some result \<Rightarrow>
             logf (''[DEBUG] Transaction results: '' @ itoa (int (length (Results result)))
                   @ '' successful operations'') w1)"

definition processResponse :: "env \<Rightarrow> response \<Rightarrow> bool \<Rightarrow> world \<Rightarrow> string option \<times> world" where
  "processResponse E resp verbose w =
     (case Body resp of
        Inl e \<Rightarrow> (Some (''failed to read response: '' @ e), w)
      | Inr body \<Rightarrow>
          if StatusCode resp = 200
          then (None, if verbose then logSuccessDetails E (StatusCode resp) body w else w)
          else if StatusCode resp = 409
          then handleTransactionConflict E body (StatusCode resp) w
          else (Some (''HTTP '' @ itoa (StatusCode resp) @ '': '' @ body), w))"

definition sendRequest :: "env \<Rightarrow> string \<Rightarrow> string \<Rightarrow> world \<Rightarrow> (string + response) \<times> world" where
  "sendRequest E consulAddr body w =
     (let u = consulAddr @ ''/v1/txn''
      in case http_NewRequest E u of
           Some e \<Rightarrow> (Inl (''failed to create request: '' @ e), w)
         | None \<Rightarrow>
             (let req = \<lparr>url = u, payload = body\<rparr>;
                  w' = w\<lparr>requests := requests w @ [req]\<rparr>
              in case client_Do E (requests w) req of
                   Inl e \<Rightarrow> (Inl (''failed to send request: '' @ e), w')
                 | Inr resp \<Rightarrow> (Inr resp, w')))"

definition logVerboseInfo :: "env \<Rightarrow> operation list \<Rightarrow> string \<Rightarrow> world \<Rightarrow> world" where
  "logVerboseInfo E operations body w =
     (let w1 = logf (''[DEBUG] Request payload size: '' @ itoa (int (length body)) @ '' bytes'') w
      in case operations of
           [] \<Rightarrow> w1
         | op0 # _ \<Rightarrow>
             (case json_MarshalIndent E op0 of
                Inl _ \<Rightarrow> w1
              | Inr firstOp \<Rightarrow>
                  logf (''[DEBUG] First operation in batch:'' @ [CHR 0x0A] @ firstOp) w1))"

definition executeTransaction :: "env \<Rightarrow> string \<Rightarrow> operation list \<Rightarrow> bool \<Rightarrow> world \<Rightarrow> string option \<times> world" where
  "executeTransaction E consulAddr operations verbose w =
     (case json_Marshal E operations of
        Inl e \<Rightarrow> (Some (''failed to marshal operations: '' @ e), w)
      | Inr body \<Rightarrow>
          (let w1 = (if verbose then logVerboseInfo E operations body w else w)
           in case sendRequest E consulAddr body w1 of
                (Inl e, w2) \<Rightarrow> (Some e, w2)
              | (Inr resp, w2) \<Rightarrow> processResponse E resp verbose w2))"

text \<open>
  The loop of \<^verbatim>\<open>ExecuteOperations\<close>, from index \<open>i\<close>. The batch is the slice
  \<^verbatim>\<open>operations[i:end]\<close>. Go's \<^verbatim>\<open>int\<close> has 64 bits; a slice is far shorter than
  \<open>2^63 - 64\<close>, so \<^verbatim>\<open>i + 64\<close> never wraps and the indices are natural numbers.
\<close>

function ExecuteOperations_loop ::
  "env \<Rightarrow> string \<Rightarrow> operation list \<Rightarrow> bool \<Rightarrow> nat \<Rightarrow> nat \<Rightarrow> world \<Rightarrow> string option \<times> world" where
  "ExecuteOperations_loop E consulAddr operations verbose totalBatches i w =
     (if i < length operations then
        (let end = min (i + maxOperationsPerTransaction) (length operations);
             batch = take (end - i) (drop i operations);
             batchNum = i div maxOperationsPerTransaction + 1;
             w1 = logf (''[INFO] Executing batch '' @ itoa (int batchNum) @ ''/''
                        @ itoa (int totalBatches) @ '' ('' @ itoa (int (length batch))
                        @ '' operations)'') w;
             w2 = (if verbose
                   then logf (''[DEBUG] Batch '' @ itoa (int batchNum) @ '' contains ''
                              @ itoa (int (length batch)) @ '' operations'') w1
                   else w1)
         in case executeTransaction E consulAddr batch verbose w2 of
              (Some e, w3) \<Rightarrow> (Some (''batch '' @ itoa (int batchNum) @ '' failed: '' @ e), w3)
            | (None, w3) \<Rightarrow>
                ExecuteOperations_loop E consulAddr operations verbose totalBatches
                  (i + maxOperationsPerTransaction)
                  (logf (''[OK] Batch '' @ itoa (int batchNum) @ ''/''
                         @ itoa (int totalBatches) @ '' completed successfully'') w3))
      else (None, w))"
  by pat_completeness auto
termination
  by (relation "measure (\<lambda>(E, a, ops, v, t, i, w). length ops - i)")
     (auto simp: maxOperationsPerTransaction_def)

declare ExecuteOperations_loop.simps [simp del]

definition ExecuteOperations :: "env \<Rightarrow> string \<Rightarrow> operation list \<Rightarrow> bool \<Rightarrow> world \<Rightarrow> string option \<times> world" where
  "ExecuteOperations E consulAddr operations verbose w =
     (if length operations = 0 then (None, logf ''[WARN] No operations to execute'' w)
      else
        (let totalBatches =
               (length operations + maxOperationsPerTransaction - 1) div maxOperationsPerTransaction
         in ExecuteOperations_loop E consulAddr operations verbose totalBatches 0 w))"

section \<open>Package strings\<close>

definition HasPrefix :: "string \<Rightarrow> string \<Rightarrow> bool" where
  "HasPrefix s prefix = (take (length prefix) s = prefix)"

definition HasSuffix :: "string \<Rightarrow> string \<Rightarrow> bool" where
  "HasSuffix s suffix =
     (length suffix \<le> length s \<and> drop (length s - length suffix) s = suffix)"

definition TrimPrefix :: "string \<Rightarrow> string \<Rightarrow> string" where
  "TrimPrefix s prefix = (if HasPrefix s prefix then drop (length prefix) s else s)"

definition TrimSuffix :: "string \<Rightarrow> string \<Rightarrow> string" where
  "TrimSuffix s suffix = (if HasSuffix s suffix then take (length s - length suffix) s else s)"

text \<open>
  The UTF-8 encodings of the runes for which \<^verbatim>\<open>unicode.IsSpace\<close> holds: tab, line feed,
  vertical tab, form feed, carriage return, space, U+0085, U+00A0, U+1680, U+2000 to
  U+200A, U+2028, U+2029, U+202F, U+205F and U+3000. A string is a list of bytes.
\<close>

definition space_runes :: "string list" where
  "space_runes =
     [ [CHR 0x09], [CHR 0x0A], [CHR 0x0B], [CHR 0x0C], [CHR 0x0D], [CHR 0x20],
      [CHR 0xC2, CHR 0x85], [CHR 0xC2, CHR 0xA0],
      [CHR 0xE1, CHR 0x9A, CHR 0x80],
      [CHR 0xE2, CHR 0x80, CHR 0x80], [CHR 0xE2, CHR 0x80, CHR 0x81],
      [CHR 0xE2, CHR 0x80, CHR 0x82], [CHR 0xE2, CHR 0x80, CHR 0x83],
      [CHR 0xE2, CHR 0x80, CHR 0x84], [CHR 0xE2, CHR 0x80, CHR 0x85],
      [CHR 0xE2, CHR 0x80, CHR 0x86], [CHR 0xE2, CHR 0x80, CHR 0x87],
      [CHR 0xE2, CHR 0x80, CHR 0x88], [CHR 0xE2, CHR 0x80, CHR 0x89],
      [CHR 0xE2, CHR 0x80, CHR 0x8A],
      [CHR 0xE2, CHR 0x80, CHR 0xA8], [CHR 0xE2, CHR 0x80, CHR 0xA9],
      [CHR 0xE2, CHR 0x80, CHR 0xAF], [CHR 0xE2, CHR 0x81, CHR 0x9F],
      [CHR 0xE3, CHR 0x80, CHR 0x80]]"

function TrimLeftSpace :: "string \<Rightarrow> string" where
  "TrimLeftSpace s =
     (case find (HasPrefix s) space_runes of
        None \<Rightarrow> s
      | Some r \<Rightarrow> TrimLeftSpace (drop (length r) s))"
  by pat_completeness auto
termination
proof (relation "measure length")
  show "wf (measure length)" by simp
next
  fix s r
  assume "find (HasPrefix s) space_runes = Some r"
  then have "HasPrefix s r" and "r \<in> set space_runes"
    by (auto simp: find_Some_iff)
  then have "r \<noteq> []" "take (length r) s = r"
    by (auto simp: HasPrefix_def space_runes_def)
  then have "s \<noteq> []" by auto
  with \<open>r \<noteq> []\<close> show "(drop (length r) s, s) \<in> measure length" by simp
qed

function TrimRightSpace :: "string \<Rightarrow> string" where
  "TrimRightSpace s =
     (case find (HasSuffix s) space_runes of
        None \<Rightarrow> s
      | Some r \<Rightarrow> TrimRightSpace (take (length s - length r) s))"
  by pat_completeness auto
termination
proof (relation "measure length")
  show "wf (measure length)" by simp
next
  fix s r
  assume "find (HasSuffix s) space_runes = Some r"
  then have "HasSuffix s r" and "r \<in> set space_runes"
    by (auto simp: find_Some_iff)
  then have "r \<noteq> []" "length r \<le> length s"
    by (auto simp: HasSuffix_def space_runes_def)
  then show "(take (length s - length r) s, s) \<in> measure length" by (cases r) auto
qed

definition TrimSpace :: "string \<Rightarrow> string" where
  "TrimSpace s = TrimRightSpace (TrimLeftSpace s)"

section \<open>The mapping engine: data\<close>

record ExecutionContext =
  Key :: string
  Value :: gomap
  Datacenter :: string
  Item :: val

record OperationRule =
  Type :: string
  Verb :: string
  Condition :: string
  Foreach :: string
  Template :: gomap

record MappingConfig =
  Operations :: "OperationRule list"

section \<open>The libraries the mapping engine calls\<close>

text \<open>
  A parsed \<^verbatim>\<open>*template.Template\<close> is what \<^verbatim>\<open>Execute\<close> does with it: from the data to the
  text written, or to the error (\<open>Inl\<close>).
\<close>

type_synonym template = "ExecutionContext \<Rightarrow> string + string"

text \<open>
  The two shapes of function in the engine's \<^verbatim>\<open>template.FuncMap\<close>:
  \<^verbatim>\<open>func(a, b interface{}) interface{}\<close> and \<^verbatim>\<open>func(v interface{}) (string, error)\<close>.
\<close>

datatype gofunc =
    Func2 "val \<Rightarrow> val \<Rightarrow> val"
  | Func1E "val \<Rightarrow> string + string"

text \<open>
  Packages text/template and encoding/json are not part of the repository; the engine
  takes them as parameters:
  \<^item> \<open>template_Parse funcs s\<close> is \<^verbatim>\<open>template.New(..).Funcs(funcs).Parse(s)\<close>, the parse error
    or the template;
  \<^item> \<open>json_Marshal_value v\<close> is \<^verbatim>\<open>json.Marshal(v)\<close>;
  \<^item> \<open>json_Unmarshal_float64 s\<close> is \<^verbatim>\<open>json.Unmarshal([]byte(s), &num)\<close> for a
    \<^verbatim>\<open>float64\<close>: the number stored when the error is nil, which is finite;
  \<^item> \<open>json_Unmarshal_slice s\<close> is the same for a \<^verbatim>\<open>[]interface{}\<close>.
\<close>

record golib =
  template_Parse :: "(string \<times> gofunc) list \<Rightarrow> string \<Rightarrow> string + template"
  json_Marshal_value :: "val \<Rightarrow> string + string"
  json_Unmarshal_float64 :: "string \<Rightarrow> rat option"
  json_Unmarshal_slice :: "string \<Rightarrow> val list option"

section \<open>The template evaluator and processor\<close>

definition funcMap :: "golib \<Rightarrow> (string \<times> gofunc) list" where
  "funcMap L =
     [(''default'', Func2 (\<lambda>defaultVal value.
                      if value = VNil \<or> value = VStr '''' then defaultVal else value)),
      (''toJSON'', Func1E (json_Marshal_value L))]"

definition evaluateTemplate :: "golib \<Rightarrow> string \<Rightarrow> ExecutionContext \<Rightarrow> string + string" where
  "evaluateTemplate L templateStr ctx =
     (case template_Parse L (funcMap L) templateStr of
        Inl e \<Rightarrow> Inl (''template parse error: '' @ e)
      | Inr tmpl \<Rightarrow>
          (case tmpl ctx of
             Inl e \<Rightarrow> Inl (''template execution error: '' @ e)
           | Inr result \<Rightarrow>
               if result = ''<no value>'' \<or> result = '''' then Inr '''' else Inr result))"

text \<open>
  The conversion \<^verbatim>\<open>int(num)\<close> of a finite float64: the fraction is discarded. Go leaves
  the result open when the value does not fit \<^verbatim>\<open>int\<close>; the value given here for that
  case, \<open>- 2^63\<close>, is the one of amd64.
\<close>

definition int_of_float64 :: "rat \<Rightarrow> int" where
  "int_of_float64 f =
     (let t = (if f < 0 then - \<lfloor>- f\<rfloor> else \<lfloor>f\<rfloor>)
      in if - (2 ^ 63) \<le> t \<and> t < 2 ^ 63 then t else - (2 ^ 63))"

text \<open>The test \<^verbatim>\<open>processed != nil && processed != "" && processed != "<no value>"\<close>.\<close>

definition keep :: "val \<Rightarrow> bool" where
  "keep processed =
     (processed \<noteq> VNil \<and> processed \<noteq> VStr '''' \<and> processed \<noteq> VStr ''<no value>'')"

text \<open>
  \<^verbatim>\<open>processTemplate\<close> with its two loops; the last argument of a loop is the \<^verbatim>\<open>result\<close>
  built so far, and \<^verbatim>\<open>result[key] = processed\<close> is \<open>AList.update\<close>.
\<close>

fun processTemplate :: "golib \<Rightarrow> val \<Rightarrow> ExecutionContext \<Rightarrow> string + val"
  and processTemplate_map :: "golib \<Rightarrow> gomap \<Rightarrow> ExecutionContext \<Rightarrow> gomap \<Rightarrow> string + val"
  and processTemplate_slice :: "golib \<Rightarrow> val list \<Rightarrow> ExecutionContext \<Rightarrow> val list \<Rightarrow> string + val"
where
  "processTemplate L (VStr v) ctx =
     (case evaluateTemplate L v ctx of
        Inl e \<Rightarrow> Inl e
      | Inr result \<Rightarrow>
          (case json_Unmarshal_float64 L result of
             Some num \<Rightarrow> Inr (VInt (int_of_float64 num))
           | None \<Rightarrow> Inr (VStr result)))"
| "processTemplate L (VMap v) ctx = processTemplate_map L v ctx []"
| "processTemplate L (VList v) ctx = processTemplate_slice L v ctx []"
| "processTemplate L VNil ctx = Inr VNil"
| "processTemplate L (VBool b) ctx = Inr (VBool b)"
| "processTemplate L (VInt i) ctx = Inr (VInt i)"
| "processTemplate L (VFloat f) ctx = Inr (VFloat f)"
| "processTemplate_map L [] ctx result = Inr (VMap result)"
| "processTemplate_map L ((key, value) # rest) ctx result =
     (case processTemplate L value ctx of
        Inl e \<Rightarrow> Inl (''failed to process key '' @ key @ '': '' @ e)
      | Inr processed \<Rightarrow>
          processTemplate_map L rest ctx
            (if keep processed then AList.update key processed result else result))"
| "processTemplate_slice L [] ctx result = Inr (VList result)"
| "processTemplate_slice L (item # rest) ctx result =
     (case processTemplate L item ctx of
        Inl e \<Rightarrow> Inl e
      | Inr processed \<Rightarrow>
          processTemplate_slice L rest ctx
            (if keep processed then result @ [processed] else result))"

section \<open>The operation rule engine\<close>

definition wrapNodeOperation :: "string \<Rightarrow> gomap \<Rightarrow> operation" where
  "wrapNodeOperation verb data =
     [(''Node'', VMap [(''Verb'', VStr verb), (''Node'', VMap data)])]"

text \<open>
  A failed type assertion \<^verbatim>\<open>data["Node"].(string)\<close> leaves the empty string, and
  \<^verbatim>\<open>data["Service"].(map[string]interface{})\<close> leaves the nil map (\<open>None\<close>).
\<close>

definition wrapServiceOperation :: "string \<Rightarrow> gomap \<Rightarrow> string + operation" where
  "wrapServiceOperation verb data =
     (let nodeName = (case map_of data ''Node'' of Some (VStr s) \<Rightarrow> s | _ \<Rightarrow> '''');
          serviceData = (case map_of data ''Service'' of Some (VMap m) \<Rightarrow> Some m | _ \<Rightarrow> None)
      in case serviceData of
           None \<Rightarrow> Inl ''invalid service operation: missing Node or Service''
         | Some m \<Rightarrow>
             if nodeName = '''' then Inl ''invalid service operation: missing Node or Service''
             else Inr [(''Service'',
                        VMap [(''Verb'', VStr verb), (''Node'', VStr nodeName),
                              (''Service'', VMap m)])])"

definition wrapCheckOperation :: "string \<Rightarrow> gomap \<Rightarrow> string + operation" where
  "wrapCheckOperation verb data =
     (let nodeName = (case map_of data ''Node'' of Some (VStr s) \<Rightarrow> s | _ \<Rightarrow> '''');
          checkData = (case map_of data ''Check'' of Some (VMap m) \<Rightarrow> Some m | _ \<Rightarrow> None)
      in case checkData of
           None \<Rightarrow> Inl ''invalid check operation: missing Node or Check''
         | Some m \<Rightarrow>
             if nodeName = '''' then Inl ''invalid check operation: missing Node or Check''
             else Inr [(''Check'',
                        VMap [(''Verb'', VStr verb), (''Node'', VStr nodeName),
                              (''Check'', VMap m)])])"

definition wrapOperation :: "string \<Rightarrow> string \<Rightarrow> gomap \<Rightarrow> string + operation" where
  "wrapOperation opType verb data =
     (if opType = ''Node'' then Inr (wrapNodeOperation verb data)
      else if opType = ''Service'' then wrapServiceOperation verb data
      else if opType = ''Check'' then wrapCheckOperation verb data
      else Inl (''unknown operation type: '' @ opType))"

definition generateSingleOperation ::
  "golib \<Rightarrow> OperationRule \<Rightarrow> ExecutionContext \<Rightarrow> string + operation" where
  "generateSingleOperation L rule ctx =
     (case processTemplate L (VMap (Template rule)) ctx of
        Inl e \<Rightarrow> Inl (''template processing failed: '' @ e)
      | Inr processed \<Rightarrow>
          (case processed of
             VMap processedMap \<Rightarrow>
               (let verb = (if Verb rule = '''' then ''set'' else Verb rule)
                in wrapOperation (Type rule) verb processedMap)
           | _ \<Rightarrow> Inl ''template result is not a map''))"

definition parseFieldPath :: "string \<Rightarrow> string" where
  "parseFieldPath expr =
     (let expr1 = TrimSpace expr;
          expr2 = TrimPrefix expr1 ''{{'';
          expr3 = TrimSuffix expr2 ''}}'';
          expr4 = TrimSpace expr3
      in if HasPrefix expr4 ''.Value.'' then TrimPrefix expr4 ''.Value.'' else '''')"

definition getNestedField :: "gomap \<Rightarrow> string \<Rightarrow> val" where
  "getNestedField data path = (case map_of data path of Some v \<Rightarrow> v | None \<Rightarrow> VNil)"

text \<open>
  \<^verbatim>\<open>evaluateForeach\<close>. A nil slice and an empty one are both \<open>[]\<close>: the callers only
  take the length and range over the result.
\<close>

definition evaluateForeach :: "golib \<Rightarrow> string \<Rightarrow> ExecutionContext \<Rightarrow> string + val list" where
  "evaluateForeach L expr ctx =
     (case template_Parse L [] expr of
        Inl e \<Rightarrow> Inl (''invalid foreach expression: '' @ e)
      | Inr tmpl \<Rightarrow>
          (case tmpl ctx of
             Inl e \<Rightarrow> Inr []
           | Inr result \<Rightarrow>
               if result = '''' \<or> result = ''<no value>'' then Inr []
               else
                 (let fieldPath = parseFieldPath expr
                  in case (if fieldPath \<noteq> ''''
                           then (case getNestedField (Value ctx) fieldPath of
                                   VList items \<Rightarrow> Some items
                                 | _ \<Rightarrow> None)
                           else None) of
                       Some items \<Rightarrow> Inr items
                     | None \<Rightarrow>
                         (case json_Unmarshal_slice L result of
                            Some items \<Rightarrow> Inr items
                          | None \<Rightarrow> Inr []))))"

text \<open>The context that \<^verbatim>\<open>processForeach\<close> builds for one item.\<close>

definition itemCtx :: "ExecutionContext \<Rightarrow> val \<Rightarrow> ExecutionContext" where
  "itemCtx ctx item =
     \<lparr>Key = Key ctx, Value = Value ctx, Datacenter = Datacenter ctx, Item = item\<rparr>"

text \<open>
  The loops of the engine carry the operations collected so far and the lines written
  with \<^verbatim>\<open>log.Printf\<close>. When \<^verbatim>\<open>generateSingleOperation\<close> returns no error, the map it
  returns is a map literal of a wrapping function, so the test \<^verbatim>\<open>op != nil\<close> of the two
  callers holds.
\<close>

fun processForeach_loop ::
  "golib \<Rightarrow> OperationRule \<Rightarrow> ExecutionContext \<Rightarrow> val list \<Rightarrow> operation list \<times> string list
   \<Rightarrow> operation list \<times> string list" where
  "processForeach_loop L rule ctx [] acc = acc"
| "processForeach_loop L rule ctx (item # items) (operations, lg) =
     (case generateSingleOperation L rule (itemCtx ctx item) of
        Inl e \<Rightarrow>
          processForeach_loop L rule ctx items
            (operations,
             lg @ [''[WARN] Failed to generate operation for item in '' @ Key ctx @ '': '' @ e])
      | Inr op \<Rightarrow> processForeach_loop L rule ctx items (operations @ [op], lg))"

definition processForeach ::
  "golib \<Rightarrow> OperationRule \<Rightarrow> ExecutionContext \<Rightarrow> string list
   \<Rightarrow> (string + operation list) \<times> string list" where
  "processForeach L rule ctx lg =
     (case evaluateForeach L (Foreach rule) ctx of
        Inl e \<Rightarrow> (Inl e, lg)
      | Inr items \<Rightarrow>
          if length items = 0 then (Inr [], lg)
          else (let (operations, lg') = processForeach_loop L rule ctx items ([], lg)
                in (Inr operations, lg')))"

text \<open>
  The second half of the body of the loop of \<^verbatim>\<open>GenerateOperations\<close>, from the comment
  \<^verbatim>\<open>Handle foreach\<close> on: what a rule that passed its condition appends.
\<close>

definition GenerateOperations_emit ::
  "golib \<Rightarrow> ExecutionContext \<Rightarrow> OperationRule \<Rightarrow> operation list \<times> string list
   \<Rightarrow> operation list \<times> string list" where
  "GenerateOperations_emit L ctx rule acc =
     (let (operations, lg) = acc
      in if Foreach rule \<noteq> '''' then
           (case processForeach L rule ctx lg of
              (Inl e, lg') \<Rightarrow>
                (operations,
                 lg' @ [''[WARN] Failed to process foreach for '' @ Key ctx @ '': '' @ e])
            | (Inr foreachOps, lg') \<Rightarrow> (operations @ foreachOps, lg'))
         else
           (case generateSingleOperation L rule ctx of
              Inl e \<Rightarrow>
                (operations,
                 lg @ [''[WARN] Failed to generate operation for '' @ Key ctx @ '': '' @ e])
            | Inr op \<Rightarrow> (operations @ [op], lg)))"

fun GenerateOperations_loop ::
  "golib \<Rightarrow> ExecutionContext \<Rightarrow> OperationRule list \<Rightarrow> operation list \<times> string list
   \<Rightarrow> operation list \<times> string list" where
  "GenerateOperations_loop L ctx [] acc = acc"
| "GenerateOperations_loop L ctx (rule # rules) (operations, lg) =
     (if Condition rule \<noteq> '''' then
        (case evaluateTemplate L (Condition rule) ctx of
           Inl e \<Rightarrow>
             GenerateOperations_loop L ctx rules
               (operations,
                lg @ [''[WARN] Failed to evaluate condition for '' @ Key ctx @ '': '' @ e])
         | Inr result \<Rightarrow>
             if result = '''' \<or> result = ''false'' \<or> result = ''<no value>''
             then GenerateOperations_loop L ctx rules (operations, lg)
             else GenerateOperations_loop L ctx rules
                    (GenerateOperations_emit L ctx rule (operations, lg)))
      else GenerateOperations_loop L ctx rules
             (GenerateOperations_emit L ctx rule (operations, lg)))"

text \<open>\<^verbatim>\<open>GenerateOperations\<close> returns the operations and the error, with the log lines.\<close>

definition GenerateOperations ::
  "golib \<Rightarrow> ExecutionContext \<Rightarrow> MappingConfig \<Rightarrow> string list
   \<Rightarrow> (string + operation list) \<times> string list" where
  "GenerateOperations L ctx config lg =
     (let (operations, lg') = GenerateOperations_loop L ctx (Operations config) ([], lg)
      in (Inr operations, lg'))"

section \<open>main.go: all records\<close>

text \<open>
  The loop of \<^verbatim>\<open>generateAllOperations\<close> over the records; the list \<^verbatim>\<open>varsData\<close> is in
  the order in which \<^verbatim>\<open>range\<close> visits the map. The context of a record has no item.
\<close>

fun generateAllOperations_loop ::
  "golib \<Rightarrow> gomap \<Rightarrow> MappingConfig \<Rightarrow> string \<Rightarrow> operation list \<times> string list
   \<Rightarrow> operation list \<times> string list" where
  "generateAllOperations_loop L [] mappingConfig datacenter acc = acc"
| "generateAllOperations_loop L ((key, value) # rest) mappingConfig datacenter (allOperations, lg) =
     (case value of
        VMap nodeValue \<Rightarrow>
          (case GenerateOperations L
                  \<lparr>Key = key, Value = nodeValue, Datacenter = datacenter, Item = VNil\<rparr>
                  mappingConfig lg of
             (Inl e, lg') \<Rightarrow>
               generateAllOperations_loop L rest mappingConfig datacenter
                 (allOperations,
                  lg' @ [''[ERROR] Failed to generate operations for '' @ key @ '': '' @ e])
           | (Inr operations, lg') \<Rightarrow>
               generateAllOperations_loop L rest mappingConfig datacenter
                 (allOperations @ operations, lg'))
      | _ \<Rightarrow>
          generateAllOperations_loop L rest mappingConfig datacenter
            (allOperations, lg @ [''[WARN] Skipping invalid node: '' @ key]))"

definition generateAllOperations ::
  "golib \<Rightarrow> gomap \<Rightarrow> MappingConfig \<Rightarrow> string \<Rightarrow> string list \<Rightarrow> operation list \<times> string list" where
  "generateAllOperations L varsData mappingConfig datacenter lg =
     (let lg1 = lg @ [''[INFO] Generating operations for '' @ itoa (int (length varsData))
                      @ '' nodes''];
          (allOperations, lg2) =
             generateAllOperations_loop L varsData mappingConfig datacenter ([], lg1)
      in (allOperations,
          lg2 @ [''[INFO] Generated '' @ itoa (int (length allOperations)) @ '' operations'']))"

section \<open>A model of text/template and encoding/json\<close>

text \<open>
  The general results below hold for every library. To run the engine on concrete inputs,
  this section models the two packages on a fragment of their inputs, following their
  sources (text/template/parse/lex.go and exec.go, fmt/print.go, encoding/json/decode.go,
  strconv/atof.go):
  \<^item> templates made of literal text and of actions that are one chain of fields,
    \<^verbatim>\<open>{{ .A.B }}\<close>, each name made of ASCII letters, digits and underscores and not
    starting with a digit; every other action is rejected as a parse error, although
    Go accepts more;
  \<^item> \<^verbatim>\<open>json.Unmarshal\<close> into a float64, on every input;
  \<^item> \<^verbatim>\<open>json.Unmarshal\<close> into a \<^verbatim>\<open>[]interface{}\<close>, for null and for arrays of numbers,
    null, true and false; every other input is rejected, although Go accepts more.
  The model is only applied to inputs inside the fragment. An error of the template
  package is represented by the last part of its message, without the position.
\<close>

datatype node = TextNode string | FieldNode "string list"

definition action_space :: "char \<Rightarrow> bool" where
  "action_space c = (c = CHR '' '' \<or> c = CHR 0x09 \<or> c = CHR 0x0D \<or> c = CHR 0x0A)"

definition is_digit :: "char \<Rightarrow> bool" where
  "is_digit c = (CHR ''0'' \<le> c \<and> c \<le> CHR ''9'')"

definition name_start :: "char \<Rightarrow> bool" where
  "name_start c =
     ((CHR ''a'' \<le> c \<and> c \<le> CHR ''z'') \<or> (CHR ''A'' \<le> c \<and> c \<le> CHR ''Z'') \<or> c = CHR ''_'')"

definition name_char :: "char \<Rightarrow> bool" where
  "name_char c = (name_start c \<or> is_digit c)"

text \<open>\<open>split_on c s\<close> cuts \<open>s\<close> at every \<open>c\<close>.\<close>

fun split_on :: "char \<Rightarrow> string \<Rightarrow> string list" where
  "split_on c [] = [ []]"
| "split_on c (x # xs) =
     (if x = c then [] # split_on c xs
      else (case split_on c xs of
              w # ws \<Rightarrow> (x # w) # ws
            | [] \<Rightarrow> [ [x]]))"

text \<open>
  \<open>split_str d k s\<close> cuts \<open>s\<close> at every occurrence of the delimiter \<open>d\<close>, from the left;
  \<open>k\<close> counts the bytes of a delimiter still to skip.
\<close>

fun split_str :: "string \<Rightarrow> nat \<Rightarrow> string \<Rightarrow> string list" where
  "split_str d k [] = [ []]"
| "split_str d (Suc k) (c # cs) = split_str d k cs"
| "split_str d 0 (c # cs) =
     (if take (length d) (c # cs) = d then [] # split_str d (length d - 1) cs
      else (case split_str d 0 cs of
              w # ws \<Rightarrow> (c # w) # ws
            | [] \<Rightarrow> [ [c]]))"

text \<open>\<open>split_first d s\<close> cuts \<open>s\<close> at the first occurrence of \<open>d\<close>.\<close>

fun split_first :: "string \<Rightarrow> string \<Rightarrow> (string \<times> string) option" where
  "split_first d [] = None"
| "split_first d (c # cs) =
     (if take (length d) (c # cs) = d then Some ([], drop (length d) (c # cs))
      else map_option (\<lambda>(a, b). (c # a, b)) (split_first d cs))"

definition parse_action :: "string \<Rightarrow> node option" where
  "parse_action body =
     (case dropWhile action_space (rev (dropWhile action_space (rev body))) of
        [] \<Rightarrow> None
      | c # rest \<Rightarrow>
          if c = CHR ''.'' then
            (let names = split_on (CHR ''.'') rest
             in if list_all (\<lambda>n. n \<noteq> [] \<and> name_start (hd n) \<and> list_all name_char n) names
                then Some (FieldNode names) else None)
          else None)"

definition parse_piece :: "string \<Rightarrow> node list option" where
  "parse_piece p =
     (case split_first ''}}'' p of
        None \<Rightarrow> None
      | Some (body, text) \<Rightarrow>
          (case parse_action body of
             None \<Rightarrow> None
           | Some n \<Rightarrow> Some [n, TextNode text]))"

definition parse_template :: "string \<Rightarrow> string + node list" where
  "parse_template s =
     (case split_str ''{{'' 0 s of
        [] \<Rightarrow> Inr []
      | t # pieces \<Rightarrow>
          (case those (map parse_piece pieces) of
             None \<Rightarrow> Inl ''malformed or unsupported action''
           | Some nss \<Rightarrow> Inr (TextNode t # concat nss)))"

text \<open>
  What \<^verbatim>\<open>evalField\<close> of exec.go works on: the invalid \<^verbatim>\<open>reflect.Value\<close> that a missing
  map key gives, or a value.
\<close>

datatype reflect_value = Invalid | Valid val

fun evalField :: "reflect_value \<Rightarrow> string \<Rightarrow> string + reflect_value" where
  "evalField Invalid name = Inr Invalid"
| "evalField (Valid VNil) name = Inl (''nil pointer evaluating interface {}.'' @ name)"
| "evalField (Valid (VMap m)) name =
     (case map_of m name of Some v \<Rightarrow> Inr (Valid v) | None \<Rightarrow> Inr Invalid)"
| "evalField (Valid v) name = Inl (''can't evaluate field '' @ name)"

fun evalFieldChain :: "reflect_value \<Rightarrow> string list \<Rightarrow> string + reflect_value" where
  "evalFieldChain r [] = Inr r"
| "evalFieldChain r (name # names) =
     (case evalField r name of
        Inl e \<Rightarrow> Inl e
      | Inr r' \<Rightarrow> evalFieldChain r' names)"

text \<open>A field of the struct \<^verbatim>\<open>ExecutionContext\<close>.\<close>

definition evalContextField :: "ExecutionContext \<Rightarrow> string \<Rightarrow> string + reflect_value" where
  "evalContextField ctx name =
     (if name = ''Key'' then Inr (Valid (VStr (Key ctx)))
      else if name = ''Value'' then Inr (Valid (VMap (Value ctx)))
      else if name = ''Datacenter'' then Inr (Valid (VStr (Datacenter ctx)))
      else if name = ''Item'' then Inr (Valid (Item ctx))
      else Inl (''can't evaluate field '' @ name @ '' in type main.ExecutionContext''))"

definition join :: "string list \<Rightarrow> string \<Rightarrow> string" where
  "join elems sep = (case elems of [] \<Rightarrow> [] | e # es \<Rightarrow> e @ concat (map (\<lambda>x. sep @ x) es))"

text \<open>
  \<^verbatim>\<open>fmt.Fprint\<close> of a value, as the verb \<^verbatim>\<open>%v\<close>: a map is printed with its keys sorted. A
  float64 that is an integer below \<open>10^6\<close> in magnitude is printed as that integer; the
  printing of the other floats is the parameter \<open>other\<close>.
\<close>

fun fmt_value :: "(float64 \<Rightarrow> string) \<Rightarrow> val \<Rightarrow> string"
  and fmt_elems :: "(float64 \<Rightarrow> string) \<Rightarrow> val list \<Rightarrow> string list"
  and fmt_entries :: "(float64 \<Rightarrow> string) \<Rightarrow> gomap \<Rightarrow> (string \<times> string) list"
where
  "fmt_value other VNil = ''<nil>''"
| "fmt_value other (VBool b) = (if b then ''true'' else ''false'')"
| "fmt_value other (VInt i) = itoa i"
| "fmt_value other (VFloat f) =
     (case f of
        Finite q \<Rightarrow>
          if q = of_int \<lfloor>q\<rfloor> \<and> \<bar>q\<bar> < 1000000 then itoa \<lfloor>q\<rfloor> else other f
      | _ \<Rightarrow> other f)"
| "fmt_value other (VStr s) = s"
| "fmt_value other (VList vs) = ''['' @ join (fmt_elems other vs) '' '' @ '']''"
| "fmt_value other (VMap m) =
     ''map['' @ join (map (\<lambda>kv. fst kv @ '':'' @ snd kv)
                        (sort_key fst (AList.clearjunk (fmt_entries other m)))) '' '' @ '']''"
| "fmt_elems other [] = []"
| "fmt_elems other (v # vs) = fmt_value other v # fmt_elems other vs"
| "fmt_entries other [] = []"
| "fmt_entries other ((k, v) # m) = (k, fmt_value other v) # fmt_entries other m"

definition printValue :: "(float64 \<Rightarrow> string) \<Rightarrow> reflect_value \<Rightarrow> string" where
  "printValue other r =
     (case r of
        Invalid \<Rightarrow> ''<no value>''
      | Valid VNil \<Rightarrow> ''<no value>''
      | Valid v \<Rightarrow> fmt_value other v)"

fun execute_node :: "(float64 \<Rightarrow> string) \<Rightarrow> ExecutionContext \<Rightarrow> node \<Rightarrow> string + string" where
  "execute_node other ctx (TextNode t) = Inr t"
| "execute_node other ctx (FieldNode []) = Inr ''<no value>''"
| "execute_node other ctx (FieldNode (name # names)) =
     (case evalContextField ctx name of
        Inl e \<Rightarrow> Inl e
      | Inr r \<Rightarrow>
          (case evalFieldChain r names of
             Inl e \<Rightarrow> Inl e
           | Inr r' \<Rightarrow> Inr (printValue other r')))"

fun execute_nodes :: "(float64 \<Rightarrow> string) \<Rightarrow> ExecutionContext \<Rightarrow> node list \<Rightarrow> string + string" where
  "execute_nodes other ctx [] = Inr []"
| "execute_nodes other ctx (n # ns) =
     (case execute_node other ctx n of
        Inl e \<Rightarrow> Inl e
      | Inr out \<Rightarrow>
          (case execute_nodes other ctx ns of
             Inl e \<Rightarrow> Inl e
           | Inr out' \<Rightarrow> Inr (out @ out')))"

definition model_template_Parse ::
  "(float64 \<Rightarrow> string) \<Rightarrow> (string \<times> gofunc) list \<Rightarrow> string \<Rightarrow> string + template" where
  "model_template_Parse other funcs s =
     (case parse_template s of
        Inl e \<Rightarrow> Inl e
      | Inr ns \<Rightarrow> Inr (\<lambda>ctx. execute_nodes other ctx ns))"

subsection \<open>JSON numbers\<close>

definition json_space :: "char \<Rightarrow> bool" where
  "json_space c = (c = CHR '' '' \<or> c = CHR 0x09 \<or> c = CHR 0x0D \<or> c = CHR 0x0A)"

definition json_trim :: "string \<Rightarrow> string" where
  "json_trim s = dropWhile json_space (rev (dropWhile json_space (rev s)))"

definition digit_val :: "char \<Rightarrow> nat" where
  "digit_val c = of_char c - 48"

definition int_of_digits :: "string \<Rightarrow> int" where
  "int_of_digits ds = foldl (\<lambda>a c. 10 * a + int (digit_val c)) 0 ds"

definition pow10 :: "int \<Rightarrow> rat" where
  "pow10 k = (if 0 \<le> k then 10 ^ nat k else 1 / 10 ^ nat (- k))"

definition pow2 :: "int \<Rightarrow> rat" where
  "pow2 k = (if 0 \<le> k then 2 ^ nat k else 1 / 2 ^ nat (- k))"

text \<open>
  The number that a JSON number literal denotes: an optional minus sign, an integer part
  without a leading zero, an optional fraction, an optional exponent. \<open>None\<close> for every
  other string.
\<close>

definition json_number :: "string \<Rightarrow> rat option" where
  "json_number s =
     (let neg = (s \<noteq> [] \<and> hd s = CHR ''-'');
          s1 = (if neg then tl s else s);
          ip = takeWhile is_digit s1;
          s2 = dropWhile is_digit s1;
          has_frac = (s2 \<noteq> [] \<and> hd s2 = CHR ''.'');
          fp = (if has_frac then takeWhile is_digit (tl s2) else []);
          s3 = (if has_frac then dropWhile is_digit (tl s2) else s2);
          has_exp = (s3 \<noteq> [] \<and> (hd s3 = CHR ''e'' \<or> hd s3 = CHR ''E''));
          s4 = (if has_exp then tl s3 else s3);
          exp_neg = (has_exp \<and> s4 \<noteq> [] \<and> hd s4 = CHR ''-'');
          s5 = (if has_exp \<and> s4 \<noteq> [] \<and> (hd s4 = CHR ''-'' \<or> hd s4 = CHR ''+'')
                then tl s4 else s4);
          ep = (if has_exp then takeWhile is_digit s5 else []);
          s6 = (if has_exp then dropWhile is_digit s5 else s5)
      in if ip = [] \<or> (1 < length ip \<and> hd ip = CHR ''0'') \<or> (has_frac \<and> fp = [])
            \<or> (has_exp \<and> ep = []) \<or> s6 \<noteq> []
         then None
         else
           (let m = of_int (int_of_digits (ip @ fp)) :: rat;
                e = (if exp_neg then - int_of_digits ep else int_of_digits ep)
                    - int (length fp);
                q = m * pow10 e
            in Some (if neg then - q else q)))"

text \<open>
  Rounding to the nearest float64, ties to even: 53 bits of precision, least exponent
  \<open>-1074\<close>; \<open>None\<close> when the rounded value is \<open>2^1024\<close> or more, the range error of
  \<^verbatim>\<open>strconv.ParseFloat\<close>.
\<close>

definition floor_log2 :: "rat \<Rightarrow> int" where
  "floor_log2 a =
     (let (n, d) = quotient_of a;
          k = bitlen n - bitlen d
      in if pow2 k \<le> a then k else k - 1)"

definition round_half_even :: "rat \<Rightarrow> int" where
  "round_half_even x =
     (let f = \<lfloor>x\<rfloor>; d = x - of_int f
      in if d < 1 / 2 then f
         else if 1 / 2 < d then f + 1
         else if even f then f else f + 1)"

definition round_float64 :: "rat \<Rightarrow> rat option" where
  "round_float64 q =
     (if q = 0 then Some 0
      else
        (let a = \<bar>q\<bar>;
             u = max (floor_log2 a - 52) (- 1074);
             v = of_int (round_half_even (a / pow2 u)) * pow2 u
         in if pow2 1024 \<le> v then None else Some (if q < 0 then - v else v)))"

text \<open>
  \<^verbatim>\<open>json.Unmarshal\<close> into a float64 gives a nil error for a number in range and for
  \<^verbatim>\<open>null\<close>, which leaves the variable at zero.
\<close>

definition model_Unmarshal_float64 :: "string \<Rightarrow> rat option" where
  "model_Unmarshal_float64 s =
     (let t = json_trim s
      in if t = ''null'' then Some 0
         else (case json_number t of None \<Rightarrow> None | Some q \<Rightarrow> round_float64 q))"

definition json_element :: "string \<Rightarrow> val option" where
  "json_element s =
     (let t = json_trim s
      in if t = ''null'' then Some VNil
         else if t = ''true'' then Some (VBool True)
         else if t = ''false'' then Some (VBool False)
         else (case json_number t of
                 None \<Rightarrow> None
               | Some q \<Rightarrow> map_option (\<lambda>f. VFloat (Finite f)) (round_float64 q)))"

definition model_Unmarshal_slice :: "string \<Rightarrow> val list option" where
  "model_Unmarshal_slice s =
     (let t = json_trim s
      in if t = ''null'' then Some []
         else if 2 \<le> length t \<and> hd t = CHR ''['' \<and> last t = CHR '']'' then
           (let inner = butlast (tl t)
            in if json_trim inner = [] then Some []
               else those (map json_element (split_on (CHR '','') inner)))
         else None)"

definition model_lib :: "(float64 \<Rightarrow> string) \<Rightarrow> (val \<Rightarrow> string + string) \<Rightarrow> golib" where
  "model_lib other marshal =
     \<lparr>template_Parse = model_template_Parse other,
      json_Marshal_value = marshal,
      json_Unmarshal_float64 = model_Unmarshal_float64,
      json_Unmarshal_slice = model_Unmarshal_slice\<rparr>"

section \<open>Auxiliary notions for the results\<close>

text \<open>The operations that one item of a foreach contributes.\<close>

definition item_ops :: "golib \<Rightarrow> OperationRule \<Rightarrow> ExecutionContext \<Rightarrow> val \<Rightarrow> operation list" where
  "item_ops L rule ctx item =
     (case generateSingleOperation L rule (itemCtx ctx item) of Inl e \<Rightarrow> [] | Inr op \<Rightarrow> [op])"

text \<open>The operations that one rule contributes to \<^verbatim>\<open>GenerateOperations\<close>.\<close>

definition rule_ops :: "golib \<Rightarrow> ExecutionContext \<Rightarrow> OperationRule \<Rightarrow> operation list" where
  "rule_ops L ctx rule = fst (GenerateOperations_loop L ctx [rule] ([], []))"

text \<open>The operations that one record contributes to \<^verbatim>\<open>generateAllOperations\<close>.\<close>

definition record_ops :: "golib \<Rightarrow> MappingConfig \<Rightarrow> string \<Rightarrow> string \<times> val \<Rightarrow> operation list" where
  "record_ops L mappingConfig datacenter kv =
     (case snd kv of
        VMap nodeValue \<Rightarrow>
          concat (map (rule_ops L \<lparr>Key = fst kv, Value = nodeValue,
                                   Datacenter = datacenter, Item = VNil\<rparr>)
                      (Operations mappingConfig))
      | _ \<Rightarrow> [])"


text \<open>
  The test that the loop of \<^verbatim>\<open>GenerateOperations\<close> makes before it handles a rule: the
  rule has no condition, or its condition evaluates, without error, to a text other than
  the empty string, \<^verbatim>\<open>false\<close> and \<^verbatim>\<open><no value>\<close>.
\<close>

definition condition_passes :: "golib \<Rightarrow> ExecutionContext \<Rightarrow> OperationRule \<Rightarrow> bool" where
  "condition_passes L ctx rule =
     (Condition rule = '''' \<or>
      (case evaluateTemplate L (Condition rule) ctx of
         Inl e \<Rightarrow> False
       | Inr result \<Rightarrow> result \<noteq> '''' \<and> result \<noteq> ''false'' \<and> result \<noteq> ''<no value>''))"

text \<open>The lines that one item of a foreach, and one rule, add to the log.\<close>

definition item_log :: "golib \<Rightarrow> OperationRule \<Rightarrow> ExecutionContext \<Rightarrow> val \<Rightarrow> string list" where
  "item_log L rule ctx item = snd (processForeach_loop L rule ctx [item] ([], []))"

definition rule_log :: "golib \<Rightarrow> ExecutionContext \<Rightarrow> OperationRule \<Rightarrow> string list" where
  "rule_log L ctx rule = snd (GenerateOperations_loop L ctx [rule] ([], []))"

section \<open>Concrete runs\<close>

text \<open>
  An environment for running the batch executor: a batch is serialised as its length, the
  first request is answered with status 200 and every later one with status 409 and a
  body that decodes to one error.
\<close>

definition demo_env :: env where
  "demo_env =
     \<lparr>json_Marshal = (\<lambda>b. Inr (itoa (int (length b)))),
      json_MarshalIndent = (\<lambda>p. Inr ''{}''),
      json_Unmarshal_response =
        (\<lambda>b. if b = ''conflict''
             then Some \<lparr>Results = [], Errors = [\<lparr>OpIndex = 3, What = ''duplicate''\<rparr>]\<rparr>
             else Some \<lparr>Results = [], Errors = []\<rparr>),
      http_NewRequest = (\<lambda>u. None),
      client_Do = (\<lambda>h r. if length h < 1 then Inr \<lparr>StatusCode = 200, Body = Inr ''ok''\<rparr>
                          else Inr \<lparr>StatusCode = 409, Body = Inr ''conflict''\<rparr>)\<rparr>"

text \<open>The same environment with a server that accepts every batch.\<close>

definition demo_ok_env :: env where
  "demo_ok_env = demo_env\<lparr>client_Do := (\<lambda>h r. Inr \<lparr>StatusCode = 200, Body = Inr ''ok''\<rparr>)\<rparr>"

definition demo_world :: world where
  "demo_world = \<lparr>requests = [], logs = []\<rparr>"

definition demo_request :: "string \<Rightarrow> request" where
  "demo_request p = \<lparr>url = ''c/v1/txn'', payload = p\<rparr>"

text \<open>
  The library model for the runs of the mapping engine. Its two parameters, the printing
  of floats that are not small integers and \<^verbatim>\<open>json.Marshal\<close>, stay unspecified: no run
  below prints such a float or calls \<^verbatim>\<open>toJSON\<close>.
\<close>

definition demo_lib :: golib where
  "demo_lib = model_lib undefined undefined"

text \<open>The rules and records of the tests of the repository.\<close>

definition node_rule :: OperationRule where
  "node_rule =
     \<lparr>Type = ''Node'', Verb = ''set'', Condition = '''', Foreach = '''',
      Template =
        [(''Node'', VStr ''{{ .Key }}''),
         (''Address'', VStr ''{{ .Value.field2 }}''),
         (''Datacenter'', VStr ''{{ .Datacenter }}''),
         (''Meta'', VMap [(''type'', VStr ''{{ .Value.field3 }}'')])]\<rparr>"

definition service_rule :: OperationRule where
  "service_rule =
     \<lparr>Type = ''Service'', Verb = ''set'', Condition = ''{{ .Value.field1 }}'', Foreach = '''',
      Template =
        [(''Node'', VStr ''{{ .Key }}''),
         (''Service'',
          VMap [(''ID'', VStr ''{{ .Value.field1 }}''),
                (''Service'', VStr ''{{ .Value.field1 }}''),
                (''Tags'', VList [VStr ''{{ .Value.field3 }}''])])]\<rparr>"

definition foreach_rule :: OperationRule where
  "foreach_rule =
     \<lparr>Type = ''Service'', Verb = ''set'', Condition = '''',
      Foreach = ''{{ .Value.nested_field }}'',
      Template =
        [(''Node'', VStr ''{{ .Key }}''),
         (''Service'',
          VMap [(''ID'', VStr ''{{ .Item.item1 }}''),
                (''Service'', VStr ''{{ .Value.field1 }}''),
                (''Port'', VStr ''{{ .Item.item2 }}'')])]\<rparr>"

definition node_001 :: ExecutionContext where
  "node_001 =
     \<lparr>Key = ''test-node-001'',
      Value = [(''field1'', VStr ''service-a''), (''field2'', VStr ''10.0.0.1''),
               (''field3'', VStr ''type-a'')],
      Datacenter = ''dc1'', Item = VNil\<rparr>"

definition node_002 :: ExecutionContext where
  "node_002 =
     \<lparr>Key = ''test-node-002'',
      Value = [(''field1'', VStr ''main-service''),
               (''nested_field'',
                VList [VMap [(''item1'', VStr ''sub1''), (''item2'', VFloat (Finite 8080))],
                       VMap [(''item1'', VStr ''sub2''), (''item2'', VFloat (Finite 9090))]])],
      Datacenter = ''dc1'', Item = VNil\<rparr>"

definition node_003 :: ExecutionContext where
  "node_003 =
     \<lparr>Key = ''test-node-003'',
      Value = [(''field2'', VStr ''10.0.0.3''), (''field3'', VStr ''type-c'')],
      Datacenter = ''dc1'', Item = VNil\<rparr>"

text \<open>A service rule whose template has no \<^verbatim>\<open>Node\<close>, and what its template is processed to.\<close>

definition nodeless_rule :: OperationRule where
  "nodeless_rule =
     \<lparr>Type = ''Service'', Verb = ''set'', Condition = '''', Foreach = '''',
      Template = [(''Service'', VMap [(''ID'', VStr ''nginx'')])]\<rparr>"

definition nodeless_data :: gomap where
  "nodeless_data = [(''Service'', VMap [(''ID'', VStr ''nginx'')])]"

text \<open>A record whose field \<^verbatim>\<open>f\<close> is a string, and a rule that iterates over that field.\<close>

definition json_text_node :: ExecutionContext where
  "json_text_node =
     \<lparr>Key = ''n1'', Value = [(''f'', VStr ''[1]'')], Datacenter = ''dc1'', Item = VNil\<rparr>"

definition json_text_rule :: OperationRule where
  "json_text_rule =
     \<lparr>Type = ''Node'', Verb = '''', Condition = '''', Foreach = ''{{ .Value.f }}'',
      Template = [(''Node'', VStr ''{{ .Key }}'')]\<rparr>"

text \<open>A record with a port, held as a float64, and an address.\<close>

definition port_node :: ExecutionContext where
  "port_node =
     \<lparr>Key = ''node-001'',
      Value = [(''port'', VFloat (Finite 8080)), (''address'', VStr ''192.168.1.1'')],
      Datacenter = ''dc1'', Item = VNil\<rparr>"


text \<open>
  Three rules that fail on the record \<^verbatim>\<open>test-node-003\<close>: one whose condition refers to the
  item of a context that has none, one whose foreach pattern is not closed, and (above)
  the service rule without a \<^verbatim>\<open>Node\<close>. Then a rule that takes the node name from the item,
  and a record whose second item has no node name.
\<close>

definition failing_condition_rule :: OperationRule where
  "failing_condition_rule =
     \<lparr>Type = ''Node'', Verb = ''set'', Condition = ''{{ .Item.name }}'', Foreach = '''',
      Template = [(''Node'', VStr ''{{ .Key }}'')]\<rparr>"

definition failing_foreach_rule :: OperationRule where
  "failing_foreach_rule =
     \<lparr>Type = ''Node'', Verb = ''set'', Condition = '''', Foreach = ''{{ .Value.nested_field'',
      Template = [(''Node'', VStr ''{{ .Key }}'')]\<rparr>"

definition item_node_rule :: OperationRule where
  "item_node_rule =
     \<lparr>Type = ''Service'', Verb = ''set'', Condition = '''',
      Foreach = ''{{ .Value.nested_field }}'',
      Template =
        [(''Node'', VStr ''{{ .Item.node }}''),
         (''Service'', VMap [(''ID'', VStr ''{{ .Item.item1 }}'')])]\<rparr>"

definition node_004 :: ExecutionContext where
  "node_004 =
     \<lparr>Key = ''test-node-004'',
      Value = [(''nested_field'',
                VList [VMap [(''node'', VStr ''n1''), (''item1'', VStr ''sub1'')],
                       VMap [(''item1'', VStr ''sub2'')],
                       VMap [(''node'', VStr ''n3''), (''item1'', VStr ''sub3'')]])],
      Datacenter = ''dc1'', Item = VNil\<rparr>"

text \<open>A node rule whose template refers to the item, for a context that has none.\<close>

definition failing_template_rule :: OperationRule where
  "failing_template_rule =
     \<lparr>Type = ''Node'', Verb = ''set'', Condition = '''', Foreach = '''',
      Template = [(''Node'', VStr ''{{ .Item.name }}'')]\<rparr>"

section \<open>The batch executor: results\<close>

lemma logf_requests [simp]: "requests (logf l w) = requests w"
  by (simp add: logf_def)

lemma logf_logs [simp]: "logs (logf l w) = logs w @ [l]"
  by (simp add: logf_def)

lemma fold_logf_requests [simp]: "requests (fold (\<lambda>e. logf (f e)) es w) = requests w"
  by (induction es arbitrary: w) simp_all

lemma fold_logf_logs [simp]: "logs (fold (\<lambda>e. logf (f e)) es w) = logs w @ map f es"
  by (induction es arbitrary: w) simp_all

lemma formatTransactionErrors_requests:
  "formatTransactionErrors es w = (r, w') \<Longrightarrow> requests w' = requests w"
  by (auto simp: formatTransactionErrors_def split: list.splits)

lemma formatTransactionErrors_fails:
  "formatTransactionErrors es w = (r, w') \<Longrightarrow> r \<noteq> None"
  by (auto simp: formatTransactionErrors_def split: list.splits)

lemma logSuccessDetails_requests [simp]:
  "requests (logSuccessDetails E c b w) = requests w"
  by (simp add: logSuccessDetails_def Let_def split: option.splits)

lemma logVerboseInfo_requests [simp]:
  "requests (logVerboseInfo E ops b w) = requests w"
  by (simp add: logVerboseInfo_def Let_def split: list.splits sum.splits)

lemma processResponse_requests:
  "processResponse E resp v w = (r, w') \<Longrightarrow> requests w' = requests w"
  by (auto simp: processResponse_def handleTransactionConflict_def
           dest: formatTransactionErrors_requests split: sum.splits if_splits option.splits)

lemma executeTransaction_ok:
  assumes "executeTransaction E a b v w = (None, w')"
  shows "\<exists>p. json_Marshal E b = Inr p \<and>
             requests w' = requests w @ [\<lparr>url = a @ ''/v1/txn'', payload = p\<rparr>]"
  using assms
  by (auto simp: executeTransaction_def sendRequest_def Let_def
           dest: processResponse_requests
           split: sum.splits option.splits prod.splits if_splits)


lemma loop_unfold:
  assumes "i < length ops"
  shows "\<exists>w2. requests w2 = requests w \<and>
     ExecuteOperations_loop E a ops v t i w =
       (case executeTransaction E a (take (min (i + 64) (length ops) - i) (drop i ops)) v w2 of
          (Some e, w3) \<Rightarrow> (Some (''batch '' @ itoa (int (i div 64 + 1)) @ '' failed: '' @ e), w3)
        | (None, w3) \<Rightarrow>
            ExecuteOperations_loop E a ops v t (i + 64)
              (logf (''[OK] Batch '' @ itoa (int (i div 64 + 1)) @ ''/''
                     @ itoa (int t) @ '' completed successfully'') w3))"
  apply (subst ExecuteOperations_loop.simps)
  apply (simp only: Let_def maxOperationsPerTransaction_def assms if_True)
  apply (rule exI)
  apply (rule conjI)
   prefer 2
   apply (rule refl)
  apply simp
  done


lemma loop_ok:
  "ExecuteOperations_loop E a ops v t i w = (None, w') \<Longrightarrow>
   \<exists>bs ps. concat bs = drop i ops \<and> (\<forall>b \<in> set bs. b \<noteq> [] \<and> length b \<le> 64) \<and>
        (\<forall>k. Suc k < length bs \<longrightarrow> length (bs ! k) = 64) \<and>
        map (json_Marshal E) bs = map Inr ps \<and>
        requests w' = requests w @ map (\<lambda>p. \<lparr>url = a @ ''/v1/txn'', payload = p\<rparr>) ps"
proof (induction "length ops - i" arbitrary: i w rule: less_induct)
  case less
  show ?case
  proof (cases "i < length ops")
    case False
    with less.prems have "w' = w" by (simp add: ExecuteOperations_loop.simps)
    with False show ?thesis by (intro exI[of _ "[]"]) simp
  next
    case True
    define batch where "batch = take (min (i + 64) (length ops) - i) (drop i ops)"
    from loop_unfold[OF True, of w E a v t] obtain w2 where
      rq2: "requests w2 = requests w" and
      unf: "ExecuteOperations_loop E a ops v t i w =
       (case executeTransaction E a batch v w2 of
          (Some e, w3) \<Rightarrow> (Some (''batch '' @ itoa (int (i div 64 + 1)) @ '' failed: '' @ e), w3)
        | (None, w3) \<Rightarrow>
            ExecuteOperations_loop E a ops v t (i + 64)
              (logf (''[OK] Batch '' @ itoa (int (i div 64 + 1)) @ ''/''
                     @ itoa (int t) @ '' completed successfully'') w3))"
      unfolding batch_def by blast
    obtain r w3 where ex: "executeTransaction E a batch v w2 = (r, w3)" by force
    with unf less.prems have r: "r = None" by (cases r) auto
    define w4 where "w4 = logf (''[OK] Batch '' @ itoa (int (i div 64 + 1)) @ ''/''
                     @ itoa (int t) @ '' completed successfully'') w3"
    from unf ex r less.prems have rec: "ExecuteOperations_loop E a ops v t (i + 64) w4 = (None, w')"
      by (simp add: w4_def)
    from executeTransaction_ok[OF ex[unfolded r]] obtain p where
      p: "json_Marshal E batch = Inr p" and
      rq3: "requests w3 = requests w @ [\<lparr>url = a @ ''/v1/txn'', payload = p\<rparr>]"
      using rq2 by auto
    have "length ops - (i + 64) < length ops - i" using True by simp
    from less.hyps[OF this rec] obtain bs ps where
      bs: "concat bs = drop (i + 64) ops" "\<forall>b \<in> set bs. b \<noteq> [] \<and> length b \<le> 64"
          "\<forall>k. Suc k < length bs \<longrightarrow> length (bs ! k) = 64"
          "map (json_Marshal E) bs = map Inr ps"
          "requests w' = requests w4 @ map (\<lambda>p. \<lparr>url = a @ ''/v1/txn'', payload = p\<rparr>) ps"
      by blast
    have rq4: "requests w4 = requests w @ [\<lparr>url = a @ ''/v1/txn'', payload = p\<rparr>]"
      by (simp add: w4_def rq3)
    have bl: "length batch = min 64 (length ops - i)" using True by (simp add: batch_def)
    have c1: "concat (batch # bs) = drop i ops"
    proof -
      have "batch = take 64 (drop i ops)" using True by (simp add: batch_def min_def)
      moreover have "drop (i + 64) ops = drop 64 (drop i ops)" by (simp add: add.commute)
      ultimately show ?thesis using bs(1) by (simp only: concat.simps append_take_drop_id)
    qed
    have c2: "\<forall>b \<in> set (batch # bs). b \<noteq> [] \<and> length b \<le> 64"
      using bs(2) bl True by auto
    have c3: "\<forall>k. Suc k < length (batch # bs) \<longrightarrow> length ((batch # bs) ! k) = 64"
    proof (intro allI impI)
      fix k assume k: "Suc k < length (batch # bs)"
      show "length ((batch # bs) ! k) = 64"
      proof (cases k)
        case 0
        with k have "bs \<noteq> []" by auto
        then obtain b where "b \<in> set bs" by (cases bs) auto
        with bs(2) have "concat bs \<noteq> []" by auto
        with bs(1) have "i + 64 < length ops" by simp
        with 0 bl show ?thesis by simp
      next
        case (Suc j)
        with k bs(3) show ?thesis by simp
      qed
    qed
    have c4: "map (json_Marshal E) (batch # bs) = map Inr (p # ps)"
      using p bs(4) by simp
    have c5: "requests w' = requests w @ map (\<lambda>p. \<lparr>url = a @ ''/v1/txn'', payload = p\<rparr>) (p # ps)"
      using bs(5) rq4 by simp
    from c1 c2 c3 c4 c5 show ?thesis by blast
  qed
qed

lemma chunk_count:
  assumes "\<forall>b \<in> set bs. b \<noteq> [] \<and> length b \<le> 64"
    and "\<forall>k. Suc k < length bs \<longrightarrow> length (bs ! k) = (64::nat)"
    and "bs \<noteq> []"
  shows "length (concat bs) = 64 * (length bs - 1) + length (last bs)"
  using assms
proof (induction bs)
  case Nil
  then show ?case by simp
next
  case (Cons b bs)
  show ?case
  proof (cases "bs = []")
    case True
    then show ?thesis by simp
  next
    case False
    have "\<forall>k. Suc k < length bs \<longrightarrow> length (bs ! k) = 64"
      using Cons.prems(2) by (metis Suc_less_eq length_Cons nth_Cons_Suc)
    with Cons.IH Cons.prems(1) False
    have "length (concat bs) = 64 * (length bs - 1) + length (last bs)" by simp
    moreover have "length b = 64" using Cons.prems(2)[rule_format, of 0] False by (cases bs) auto
    ultimately show ?thesis using False by (cases bs) auto
  qed
qed

lemma ceil64: "\<lceil>rat_of_nat n / 64\<rceil> = int ((n + 63) div 64)"
proof -
  have "\<lceil>rat_of_nat n / 64\<rceil> = \<lceil>of_int (int n) / of_int 64 :: rat\<rceil>" by simp
  also have "\<dots> = - (- int n div 64)" by (rule ceiling_divide_eq_div)
  also have "\<dots> = int ((n + 63) div 64)" by (simp add: zdiv_int)
  finally show ?thesis .
qed

lemma cnt_arith:
  fixes n L l :: nat
  assumes "n = 64 * (L - 1) + l" "1 \<le> l" "l \<le> 64" "1 \<le> L"
  shows "(n + 63) div 64 = L" and "l = (if n mod 64 = 0 then 64 else n mod 64)"
proof -
  obtain m where L: "L = Suc m" using assms(4) by (cases L) auto
  have n: "n = 64 * m + l" using assms(1) L by simp
  have "(l + 63) div 64 = 1" using assms(2,3) by simp
  then show "(n + 63) div 64 = L" unfolding n L by simp
  show "l = (if n mod 64 = 0 then 64 else n mod 64)"
  proof (cases "l = 64")
    case True
    then show ?thesis unfolding n by simp
  next
    case False
    with assms(3) have "l < 64" by simp
    then have "n mod 64 = l" unfolding n by simp
    with assms(2) show ?thesis by simp
  qed
qed

text \<open>
  Claim C1. When \<^verbatim>\<open>ExecuteOperations\<close> returns nil, the requests it made carry, in order,
  the serialised batches \<open>bs\<close> of a partition of the operation list: the batches
  concatenate to the list, there are \<open>\<lceil>N / 64\<rceil>\<close> of them, every batch but the last has
  exactly 64 operations, and the last has \<open>N mod 64\<close> operations, or 64 when \<open>N\<close> is a
  positive multiple of 64.
\<close>

theorem batch_partition_exact:
  assumes "ExecuteOperations E consulAddr ops verbose w = (None, w')"
  shows "\<exists>bs ps. concat bs = ops \<and>
           int (length bs) = \<lceil>rat_of_nat (length ops) / 64\<rceil> \<and>
           (\<forall>k. Suc k < length bs \<longrightarrow> length (bs ! k) = 64) \<and>
           (bs \<noteq> [] \<longrightarrow> length (last bs) = (if length ops mod 64 = 0 then 64 else length ops mod 64)) \<and>
           map (json_Marshal E) bs = map Inr ps \<and>
           requests w' = requests w @ map (\<lambda>p. \<lparr>url = consulAddr @ ''/v1/txn'', payload = p\<rparr>) ps"
proof (cases "ops = []")
  case True
  with assms have "requests w' = requests w"
    by (auto simp: ExecuteOperations_def)
  with True show ?thesis by (intro exI[of _ "[]"]) simp
next
  case False
  with assms have "ExecuteOperations_loop E consulAddr ops verbose
      ((length ops + maxOperationsPerTransaction - 1) div maxOperationsPerTransaction) 0 w = (None, w')"
    by (simp add: ExecuteOperations_def Let_def)
  from loop_ok[OF this] obtain bs ps where
    bs: "concat bs = ops" "\<forall>b \<in> set bs. b \<noteq> [] \<and> length b \<le> 64"
        "\<forall>k. Suc k < length bs \<longrightarrow> length (bs ! k) = 64"
        "map (json_Marshal E) bs = map Inr ps"
        "requests w' = requests w @ map (\<lambda>p. \<lparr>url = consulAddr @ ''/v1/txn'', payload = p\<rparr>) ps"
    by auto
  from bs(1) False have ne: "bs \<noteq> []" by auto
  from chunk_count[OF bs(2,3) ne] bs(1)
  have n: "length ops = 64 * (length bs - 1) + length (last bs)" by simp
  from ne bs(2) have l: "1 \<le> length (last bs)" "length (last bs) \<le> 64"
    by (auto simp: Suc_le_eq)
  from ne have lb: "1 \<le> length bs" by (cases bs) auto
  have cnt: "(length ops + 63) div 64 = length bs" by (rule cnt_arith(1)[OF n l lb])
  have lst: "length (last bs) = (if length ops mod 64 = 0 then 64 else length ops mod 64)"
    by (rule cnt_arith(2)[OF n l lb])
  show ?thesis
    using bs(1,3,4,5) cnt lst by (intro exI[of _ bs] exI[of _ ps]) (simp add: ceil64)
qed

theorem batch_partition_exact_witness:
  "ExecuteOperations demo_ok_env ''c'' (replicate 65 []) False demo_world
     = (None,
        \<lparr>requests = [demo_request ''64'', demo_request ''1''],
         logs = [''[INFO] Executing batch 1/2 (64 operations)'',
                 ''[OK] Batch 1/2 completed successfully'',
                 ''[INFO] Executing batch 2/2 (1 operations)'',
                 ''[OK] Batch 2/2 completed successfully'']\<rparr>)
   \<and> (\<exists>bs ps. concat bs = replicate 65 [] \<and>
           int (length bs) = \<lceil>rat_of_nat (length (replicate 65 ([] :: operation))) / 64\<rceil> \<and>
           (\<forall>k. Suc k < length bs \<longrightarrow> length (bs ! k) = 64) \<and>
           (bs \<noteq> [] \<longrightarrow> length (last bs) = 1) \<and>
           map (json_Marshal demo_ok_env) bs = map Inr ps \<and>
           [demo_request ''64'', demo_request ''1'']
           = map (\<lambda>p. \<lparr>url = ''c'' @ ''/v1/txn'', payload = p\<rparr>) ps)"
proof -
  define w1 where "w1 = \<lparr>requests = [demo_request ''64'', demo_request ''1''],
         logs = [''[INFO] Executing batch 1/2 (64 operations)'',
                 ''[OK] Batch 1/2 completed successfully'',
                 ''[INFO] Executing batch 2/2 (1 operations)'',
                 ''[OK] Batch 2/2 completed successfully'']\<rparr>"
  have run: "ExecuteOperations demo_ok_env ''c'' (replicate 65 []) False demo_world = (None, w1)"
    unfolding w1_def by code_simp
  from batch_partition_exact[OF run] run
  show ?thesis by (simp add: w1_def demo_world_def)
qed

lemma executeTransaction_cases:
  assumes "executeTransaction E a b v w = (r, w')"
  shows "(requests w' = requests w \<and> r \<noteq> None) \<or>
         (\<exists>p w2. json_Marshal E b = Inr p \<and>
            requests w' = requests w @ [\<lparr>url = a @ ''/v1/txn'', payload = p\<rparr>] \<and>
            requests w2 = requests w' \<and>
            (case client_Do E (requests w) \<lparr>url = a @ ''/v1/txn'', payload = p\<rparr> of
               Inl e \<Rightarrow> r \<noteq> None \<and> w' = w2
             | Inr resp \<Rightarrow> processResponse E resp v w2 = (r, w')))"
proof (cases "json_Marshal E b")
  case (Inl e)
  with assms show ?thesis by (auto simp: executeTransaction_def)
next
  case (Inr p)
  define w1 where "w1 = (if v then logVerboseInfo E b p w else w)"
  have rq1: "requests w1 = requests w" by (simp add: w1_def)
  show ?thesis
  proof (cases "http_NewRequest E (a @ ''/v1/txn'')")
    case (Some e)
    with assms Inr rq1 show ?thesis
      by (auto simp: executeTransaction_def sendRequest_def w1_def)
  next
    case None
    define req where "req = \<lparr>url = a @ ''/v1/txn'', payload = p\<rparr>"
    define w2 where "w2 = w1\<lparr>requests := requests w1 @ [req]\<rparr>"
    have rq2: "requests w2 = requests w @ [req]" by (simp add: w2_def rq1)
    have sr: "sendRequest E a p w1 =
               (case client_Do E (requests w) req of
                  Inl e \<Rightarrow> (Inl (''failed to send request: '' @ e), w2)
                | Inr resp \<Rightarrow> (Inr resp, w2))"
      unfolding sendRequest_def Let_def w2_def req_def using None by (simp add: rq1)
    have et: "executeTransaction E a b v w =
               (case sendRequest E a p w1 of
                  (Inl e, w2) \<Rightarrow> (Some e, w2)
                | (Inr resp, w2) \<Rightarrow> processResponse E resp v w2)"
      using Inr by (simp add: executeTransaction_def w1_def Let_def)
    show ?thesis
    proof (cases "client_Do E (requests w) req")
      case (Inl e)
      with assms et sr have "r \<noteq> None" "w' = w2" by auto
      with Inl Inr rq2 show ?thesis
        unfolding req_def by (intro disjI2 exI[of _ p] exI[of _ w2]) simp
    next
      case (Inr resp)
      with assms et sr have pr: "processResponse E resp v w2 = (r, w')" by simp
      from processResponse_requests[OF pr] rq2
      have "requests w' = requests w @ [req]" by simp
      with pr Inr \<open>json_Marshal E b = Inr p\<close> rq2 show ?thesis
        unfolding req_def by (intro disjI2 exI[of _ p] exI[of _ w2]) simp
    qed
  qed
qed

lemma processResponse_conflict:
  assumes "processResponse E \<lparr>StatusCode = 409, Body = Inr body\<rparr> v w = (r, w')"
    and "json_Unmarshal_response E body = Some result"
    and "Errors result = e0 # es"
  shows "r = Some (''transaction failed: operation '' @ itoa (OpIndex e0) @ '': '' @ What e0)"
    and "logs w' = logs w @ map error_line (e0 # es)"
  using assms
  by (auto simp: processResponse_def handleTransactionConflict_def formatTransactionErrors_def)

lemma processResponse_conflict_fails:
  "processResponse E \<lparr>StatusCode = 409, Body = b\<rparr> v w = (r, w') \<Longrightarrow> r \<noteq> None"
  by (auto simp: processResponse_def handleTransactionConflict_def
           dest: formatTransactionErrors_fails split: sum.splits option.splits)

lemma executeTransaction_requests_mono:
  "executeTransaction E a b v w = (r, w') \<Longrightarrow> \<exists>rs. requests w' = requests w @ rs"
  by (drule executeTransaction_cases) auto

lemma loop_requests_mono:
  "ExecuteOperations_loop E a ops v t i w = (res, w') \<Longrightarrow> \<exists>rs. requests w' = requests w @ rs"
proof (induction "length ops - i" arbitrary: i w rule: less_induct)
  case less
  show ?case
  proof (cases "i < length ops")
    case False
    with less.prems have "w' = w" by (simp add: ExecuteOperations_loop.simps)
    then show ?thesis by simp
  next
    case True
    from loop_unfold[OF True, of w E a v t] obtain w2 where
      rq2: "requests w2 = requests w" and
      unf: "ExecuteOperations_loop E a ops v t i w =
       (case executeTransaction E a (take (min (i + 64) (length ops) - i) (drop i ops)) v w2 of
          (Some e, w3) \<Rightarrow> (Some (''batch '' @ itoa (int (i div 64 + 1)) @ '' failed: '' @ e), w3)
        | (None, w3) \<Rightarrow>
            ExecuteOperations_loop E a ops v t (i + 64)
              (logf (''[OK] Batch '' @ itoa (int (i div 64 + 1)) @ ''/''
                     @ itoa (int t) @ '' completed successfully'') w3))"
      by blast
    obtain r w3 where ex: "executeTransaction E a (take (min (i + 64) (length ops) - i) (drop i ops)) v w2 = (r, w3)"
      by force
    from executeTransaction_requests_mono[OF ex] rq2 obtain rs1 where
      rs1: "requests w3 = requests w @ rs1" by auto
    show ?thesis
    proof (cases r)
      case (Some e)
      with unf ex less.prems have "w' = w3" by simp
      with rs1 show ?thesis by blast
    next
      case None
      with unf ex less.prems have rec: "ExecuteOperations_loop E a ops v t (i + 64)
              (logf (''[OK] Batch '' @ itoa (int (i div 64 + 1)) @ ''/''
                     @ itoa (int t) @ '' completed successfully'') w3) = (res, w')" by simp
      have "length ops - (i + 64) < length ops - i" using True by simp
      from less.hyps[OF this rec] rs1 show ?thesis by auto
    qed
  qed
qed

lemma loop_conflict:
  assumes "ExecuteOperations_loop E a ops v t i w = (res, w')"
    and "requests w' = requests w @ rs"
    and "k < length rs"
    and "client_Do E (requests w @ take k rs) (rs ! k) = Inr \<lparr>StatusCode = 409, Body = Inr body\<rparr>"
    and "json_Unmarshal_response E body = Some result"
    and "Errors result = e0 # es"
  shows "res = Some (''batch '' @ itoa (int (i div 64 + k + 1)) @ '' failed: ''
                     @ ''transaction failed: operation '' @ itoa (OpIndex e0) @ '': '' @ What e0)
         \<and> length rs = k + 1
         \<and> (\<exists>pre. logs w' = pre @ map error_line (e0 # es))"
  using assms(1-4)
proof (induction "length ops - i" arbitrary: i w rs k rule: less_induct)
  case less
  show ?case
  proof (cases "i < length ops")
    case False
    with less.prems(1) have "w' = w" by (simp add: ExecuteOperations_loop.simps)
    with less.prems(2,3) show ?thesis by simp
  next
    case True
    define batch where "batch = take (min (i + 64) (length ops) - i) (drop i ops)"
    from loop_unfold[OF True, of w E a v t] obtain w2 where
      rq2: "requests w2 = requests w" and
      unf: "ExecuteOperations_loop E a ops v t i w =
       (case executeTransaction E a batch v w2 of
          (Some e, w3) \<Rightarrow> (Some (''batch '' @ itoa (int (i div 64 + 1)) @ '' failed: '' @ e), w3)
        | (None, w3) \<Rightarrow>
            ExecuteOperations_loop E a ops v t (i + 64)
              (logf (''[OK] Batch '' @ itoa (int (i div 64 + 1)) @ ''/''
                     @ itoa (int t) @ '' completed successfully'') w3))"
      unfolding batch_def by blast
    obtain r w3 where ex: "executeTransaction E a batch v w2 = (r, w3)" by force
    show ?thesis
    proof (cases r)
      case (Some e)
      with unf ex less.prems(1) have res: "res = Some (''batch '' @ itoa (int (i div 64 + 1)) @ '' failed: '' @ e)"
        and w': "w' = w3" by auto
      from executeTransaction_cases[OF ex] show ?thesis
      proof (elim disjE conjE exE)
        assume "requests w3 = requests w2"
        with w' rq2 less.prems(2,3) show ?thesis by simp
      next
        fix p w5
        assume a: "json_Marshal E batch = Inr p"
          "requests w3 = requests w2 @ [\<lparr>url = a @ ''/v1/txn'', payload = p\<rparr>]"
          "requests w5 = requests w3"
          "case client_Do E (requests w2) \<lparr>url = a @ ''/v1/txn'', payload = p\<rparr> of
             Inl e \<Rightarrow> r \<noteq> None \<and> w3 = w5
           | Inr resp \<Rightarrow> processResponse E resp v w5 = (r, w3)"
        from a(2) w' rq2 less.prems(2) have rs: "rs = [\<lparr>url = a @ ''/v1/txn'', payload = p\<rparr>]" by simp
        with less.prems(3) have k: "k = 0" by simp
        from less.prems(4) rs k rq2
        have "client_Do E (requests w2) \<lparr>url = a @ ''/v1/txn'', payload = p\<rparr>
              = Inr \<lparr>StatusCode = 409, Body = Inr body\<rparr>" by simp
        with a(4) have pr: "processResponse E \<lparr>StatusCode = 409, Body = Inr body\<rparr> v w5 = (r, w3)" by simp
        from processResponse_conflict[OF pr assms(5,6)] Some
        have "e = ''transaction failed: operation '' @ itoa (OpIndex e0) @ '': '' @ What e0"
          and "logs w3 = logs w5 @ map error_line (e0 # es)" by auto
        with res w' rs k show ?thesis by auto
      qed
    next
      case None
      define w4 where "w4 = logf (''[OK] Batch '' @ itoa (int (i div 64 + 1)) @ ''/''
                     @ itoa (int t) @ '' completed successfully'') w3"
      from unf ex None less.prems(1)
      have rec: "ExecuteOperations_loop E a ops v t (i + 64) w4 = (res, w')"
        by (simp add: w4_def)
      from executeTransaction_cases[OF ex] None obtain p w5 where
        a: "json_Marshal E batch = Inr p"
          "requests w3 = requests w2 @ [\<lparr>url = a @ ''/v1/txn'', payload = p\<rparr>]"
          "requests w5 = requests w3"
          "case client_Do E (requests w2) \<lparr>url = a @ ''/v1/txn'', payload = p\<rparr> of
             Inl e \<Rightarrow> r \<noteq> None \<and> w3 = w5
           | Inr resp \<Rightarrow> processResponse E resp v w5 = (r, w3)"
        by auto
      define req where "req = \<lparr>url = a @ ''/v1/txn'', payload = p\<rparr>"
      have rq4: "requests w4 = requests w @ [req]" by (simp add: w4_def a(2) rq2 req_def)
      from loop_requests_mono[OF rec] obtain rs' where rs': "requests w' = requests w4 @ rs'" by blast
      with rq4 less.prems(2) have rs: "rs = req # rs'" by simp
      have k0: "k \<noteq> 0"
      proof
        assume "k = 0"
        with less.prems(4) rs rq2 have "client_Do E (requests w2) req = Inr \<lparr>StatusCode = 409, Body = Inr body\<rparr>"
          by simp
        with a(4) have "processResponse E \<lparr>StatusCode = 409, Body = Inr body\<rparr> v w5 = (r, w3)"
          by (simp add: req_def)
        from processResponse_conflict_fails[OF this] None show False by simp
      qed
      then obtain k' where k': "k = Suc k'" by (cases k) auto
      have m: "length ops - (i + 64) < length ops - i" using True by simp
      have p2: "requests w' = requests w4 @ rs'" by (rule rs')
      have p3: "k' < length rs'" using less.prems(3) rs k' by simp
      have p4: "client_Do E (requests w4 @ take k' rs') (rs' ! k') = Inr \<lparr>StatusCode = 409, Body = Inr body\<rparr>"
        using less.prems(4) rs k' rq4 by simp
      from less.hyps[OF m rec p2 p3 p4]
      have "res = Some (''batch '' @ itoa (int ((i + 64) div 64 + k' + 1)) @ '' failed: ''
                     @ ''transaction failed: operation '' @ itoa (OpIndex e0) @ '': '' @ What e0)"
         and "length rs' = k' + 1"
         and "\<exists>pre. logs w' = pre @ map error_line (e0 # es)" by blast+
      moreover have "(i + 64) div 64 + k' + 1 = i div 64 + k + 1" using k' by simp
      ultimately show ?thesis using rs k' by simp
    qed
  qed
qed

text \<open>
  Claim C2. Let \<open>rs\<close> be the requests of a run of \<^verbatim>\<open>ExecuteOperations\<close>. When request
  number \<open>k\<close> (from 0) is answered with status 409 and a body that decodes to a list of
  errors starting with \<open>e0\<close>, the run returns the error that names batch \<open>k + 1\<close> and the
  index and message of \<open>e0\<close>, request \<open>k\<close> is the last request of the run, and the log ends
  with one line for each error of the list, in order.
\<close>

theorem conflict_aborts_run:
  assumes "ExecuteOperations E consulAddr ops verbose w = (res, w')"
    and "requests w' = requests w @ rs"
    and "k < length rs"
    and "client_Do E (requests w @ take k rs) (rs ! k)
         = Inr \<lparr>StatusCode = 409, Body = Inr body\<rparr>"
    and "json_Unmarshal_response E body = Some result"
    and "Errors result = e0 # es"
  shows "res = Some (''batch '' @ itoa (int k + 1) @ '' failed: ''
                     @ ''transaction failed: operation '' @ itoa (OpIndex e0) @ '': '' @ What e0)
         \<and> length rs = k + 1
         \<and> (\<exists>pre. logs w' = pre @ map error_line (e0 # es))"
proof (cases "length ops = 0")
  case True
  with assms(1) have "requests w' = requests w"
    by (auto simp: ExecuteOperations_def)
  with assms(2,3) show ?thesis by simp
next
  case False
  with assms(1) have "ExecuteOperations_loop E consulAddr ops verbose
      ((length ops + maxOperationsPerTransaction - 1) div maxOperationsPerTransaction) 0 w
      = (res, w')"
    by (simp add: ExecuteOperations_def Let_def)
  from loop_conflict[OF this assms(2-6)] show ?thesis
    by (simp add: add.commute)
qed

theorem conflict_aborts_run_witness:
  "ExecuteOperations demo_env ''c'' (replicate 130 []) False demo_world
     = (Some ''batch 2 failed: transaction failed: operation 3: duplicate'',
        \<lparr>requests = [demo_request ''64'', demo_request ''64''],
         logs = [''[INFO] Executing batch 1/3 (64 operations)'',
                 ''[OK] Batch 1/3 completed successfully'',
                 ''[INFO] Executing batch 2/3 (64 operations)'',
                 ''[ERROR] Operation 3 failed: duplicate'']\<rparr>)
   \<and> length [demo_request ''64'', demo_request ''64''] = 1 + 1
   \<and> (\<exists>pre. [''[INFO] Executing batch 1/3 (64 operations)'',
              ''[OK] Batch 1/3 completed successfully'',
              ''[INFO] Executing batch 2/3 (64 operations)'',
              ''[ERROR] Operation 3 failed: duplicate'']
             = pre @ map error_line [\<lparr>OpIndex = 3, What = ''duplicate''\<rparr>])"
proof -
  define w1 where "w1 = \<lparr>requests = [demo_request ''64'', demo_request ''64''],
         logs = [''[INFO] Executing batch 1/3 (64 operations)'',
                 ''[OK] Batch 1/3 completed successfully'',
                 ''[INFO] Executing batch 2/3 (64 operations)'',
                 ''[ERROR] Operation 3 failed: duplicate'']\<rparr>"
  have run: "ExecuteOperations demo_env ''c'' (replicate 130 []) False demo_world
     = (Some ''batch 2 failed: transaction failed: operation 3: duplicate'', w1)"
    unfolding w1_def by code_simp
  have h2: "requests w1 = requests demo_world @ [demo_request ''64'', demo_request ''64'']"
    by (simp add: w1_def demo_world_def)
  have h3: "(1::nat) < length [demo_request ''64'', demo_request ''64'']" by simp
  have h4: "client_Do demo_env (requests demo_world @ take 1 [demo_request ''64'', demo_request ''64''])
              ([demo_request ''64'', demo_request ''64''] ! 1)
            = Inr \<lparr>StatusCode = 409, Body = Inr ''conflict''\<rparr>"
    by (simp add: demo_env_def demo_world_def)
  have h5: "json_Unmarshal_response demo_env ''conflict''
            = Some \<lparr>Results = [], Errors = [\<lparr>OpIndex = 3, What = ''duplicate''\<rparr>]\<rparr>"
    by (simp add: demo_env_def)
  have h6: "Errors \<lparr>Results = [], Errors = [\<lparr>OpIndex = 3, What = ''duplicate''\<rparr>]\<rparr>
            = \<lparr>OpIndex = 3, What = ''duplicate''\<rparr> # []" by simp
  from conflict_aborts_run[OF run h2 h3 h4 h5 h6] run
  show ?thesis by (simp add: w1_def)
qed

section \<open>The mapping engine: results\<close>

lemma GenerateOperations_loop_append:
  "GenerateOperations_loop L ctx (xs @ ys) acc
   = GenerateOperations_loop L ctx ys (GenerateOperations_loop L ctx xs acc)"
proof (induction xs arbitrary: acc)
  case Nil
  show ?case by simp
next
  case (Cons r xs)
  obtain ops lg where acc: "acc = (ops, lg)" by (cases acc)
  show ?case unfolding acc by (simp add: Cons.IH split: sum.splits)
qed

lemma fst_processForeach_loop:
  "fst (processForeach_loop L rule ctx items (ops, lg))
   = ops @ concat (map (item_ops L rule ctx) items)"
  by (induction items arbitrary: ops lg) (auto simp: item_ops_def split: sum.splits)

lemma fst_processForeach:
  "fst (processForeach L rule ctx lg) = fst (processForeach L rule ctx lg')"
proof (cases "evaluateForeach L (Foreach rule) ctx")
  case (Inl e)
  then show ?thesis by (simp add: processForeach_def)
next
  case (Inr items)
  have "fst (processForeach_loop L rule ctx items ([], lg))
        = fst (processForeach_loop L rule ctx items ([], lg'))"
    by (simp add: fst_processForeach_loop)
  with Inr show ?thesis
    by (simp add: processForeach_def split_beta)
qed

lemma fst_emit:
  "fst (GenerateOperations_emit L ctx rule (ops, lg))
   = ops @ fst (GenerateOperations_emit L ctx rule ([], []))"
proof (cases "Foreach rule = ''''")
  case True
  then show ?thesis
    by (simp add: GenerateOperations_emit_def split: sum.splits)
next
  case False
  obtain r1 l1 where p1: "processForeach L rule ctx lg = (r1, l1)" by force
  obtain r2 l2 where p2: "processForeach L rule ctx [] = (r2, l2)" by force
  from fst_processForeach[of L rule ctx lg "[]"] p1 p2 have "r1 = r2" by simp
  with False p1 p2 show ?thesis
    by (simp add: GenerateOperations_emit_def split: sum.splits)
qed

lemma fst_loop:
  "fst (GenerateOperations_loop L ctx rules (ops, lg))
   = ops @ concat (map (rule_ops L ctx) rules)"
proof (induction rules arbitrary: ops lg)
  case Nil
  show ?case by simp
next
  case (Cons r rules)
  obtain o1 l1 where e1: "GenerateOperations_emit L ctx r (ops, lg) = (o1, l1)" by force
  obtain o2 l2 where e2: "GenerateOperations_emit L ctx r ([], []) = (o2, l2)" by force
  from fst_emit[of L ctx r ops lg] e1 e2 have o1: "o1 = ops @ o2" by simp
  show ?case
    by (simp add: Cons.IH rule_ops_def e1 e2 o1 split: sum.splits)
qed

lemma fst_GenerateOperations:
  "fst (GenerateOperations L ctx config lg)
   = Inr (concat (map (rule_ops L ctx) (Operations config)))"
  using fst_loop[of L ctx "Operations config" "[]" lg]
  by (simp add: GenerateOperations_def split_beta)

lemma rule_ops_failed:
  assumes "Foreach rule = ''''" and "generateSingleOperation L rule ctx = Inl e"
  shows "rule_ops L ctx rule = []"
  using assms
  by (auto simp: rule_ops_def GenerateOperations_emit_def split: sum.splits)

text \<open>
  Claim C3. A rule whose condition pattern is present and evaluates to the empty string,
  to \<^verbatim>\<open>false\<close> or to \<^verbatim>\<open><no value>\<close> leaves the operations and the log as they are, and
  \<^verbatim>\<open>GenerateOperations\<close> returns what it returns without that rule: the rules before and
  after it run, and no error results.
\<close>

theorem condition_gate_skips_rule:
  assumes "Condition rule \<noteq> ''''"
    and "evaluateTemplate L (Condition rule) ctx = Inr result"
    and "result = '''' \<or> result = ''false'' \<or> result = ''<no value>''"
  shows "GenerateOperations_loop L ctx [rule] acc = acc \<and>
         GenerateOperations L ctx \<lparr>Operations = before @ rule # after\<rparr> lg
         = GenerateOperations L ctx \<lparr>Operations = before @ after\<rparr> lg"
proof -
  have one: "GenerateOperations_loop L ctx [rule] a = a" for a
  proof -
    obtain x y where a: "a = (x, y)" by (cases a)
    show ?thesis unfolding a using assms by auto
  qed
  have "GenerateOperations_loop L ctx (before @ rule # after) ([], lg)
        = GenerateOperations_loop L ctx (before @ after) ([], lg)"
    using GenerateOperations_loop_append[of L ctx before "[rule] @ after"]
          GenerateOperations_loop_append[of L ctx "[rule]" after]
          GenerateOperations_loop_append[of L ctx before after] one
    by simp
  then show ?thesis using one by (simp add: GenerateOperations_def)
qed

theorem condition_gate_skips_rule_witness:
  "Condition service_rule \<noteq> '''' \<and>
   evaluateTemplate demo_lib (Condition service_rule) node_003 = Inr '''' \<and>
   GenerateOperations_loop demo_lib node_003 [service_rule] ([], []) = ([], []) \<and>
   GenerateOperations demo_lib node_003 \<lparr>Operations = [node_rule] @ service_rule # []\<rparr> []
   = GenerateOperations demo_lib node_003 \<lparr>Operations = [node_rule] @ []\<rparr> []"
proof -
  have h1: "Condition service_rule \<noteq> ''''" by (simp add: service_rule_def)
  have h2: "evaluateTemplate demo_lib (Condition service_rule) node_003 = Inr ''''"
    by code_simp
  have h3: "'''' = '''' \<or> '''' = ''false'' \<or> '''' = ''<no value>''" by simp
  from condition_gate_skips_rule[OF h1 h2 h3, of "([], [])" "[node_rule]" "[]" "[]"] h1 h2
  show ?thesis by simp
qed

lemma evaluateForeach_field:
  assumes "template_Parse L [] expr = Inr tmpl"
    and "tmpl ctx = Inr out" and "out \<noteq> ''''" and "out \<noteq> ''<no value>''"
    and "parseFieldPath expr \<noteq> ''''"
    and "map_of (Value ctx) (parseFieldPath expr) = Some (VList items)"
  shows "evaluateForeach L expr ctx = Inr items"
  using assms by (simp add: evaluateForeach_def getNestedField_def)

lemma evaluateForeach_nothing:
  assumes "template_Parse L [] expr = Inr tmpl"
    and "(\<exists>e. tmpl ctx = Inl e) \<or> tmpl ctx = Inr '''' \<or> tmpl ctx = Inr ''<no value>''"
  shows "evaluateForeach L expr ctx = Inr []"
  using assms by (auto simp: evaluateForeach_def)

lemma evaluateForeach_fallback:
  assumes "template_Parse L [] expr = Inr tmpl"
    and "tmpl ctx = Inr out"
    and "\<nexists>items. parseFieldPath expr \<noteq> '''' \<and>
                 map_of (Value ctx) (parseFieldPath expr) = Some (VList items)"
    and "json_Unmarshal_slice L out = None \<or> json_Unmarshal_slice L out = Some []"
  shows "evaluateForeach L expr ctx = Inr []"
  using assms
  by (auto simp: evaluateForeach_def getNestedField_def Let_def
           split: option.splits val.splits)

lemma processForeach_items:
  assumes "evaluateForeach L (Foreach rule) ctx = Inr items"
  shows "fst (processForeach L rule ctx lg) = Inr (concat (map (item_ops L rule ctx) items))"
proof (cases "items = []")
  case True
  with assms show ?thesis by (simp add: processForeach_def)
next
  case False
  with assms fst_processForeach_loop[of L rule ctx items "[]" lg] show ?thesis
    by (simp add: processForeach_def split_beta)
qed

text \<open>
  Claim C4, as stated, fails: a field that is not a sequence but a string holding the
  text of a JSON array is iterated, through the fallback of \<^verbatim>\<open>evaluateForeach\<close>. Here
  the field \<^verbatim>\<open>f\<close> holds the string \<^verbatim>\<open>[1]\<close> and one operation is produced.
\<close>

theorem foreach_text_field_counterexample:
  "map_of (Value json_text_node) ''f'' = Some (VStr ''[1]'') \<and>
   processForeach demo_lib json_text_rule json_text_node []
   = (Inr [ [(''Node'', VMap [(''Verb'', VStr ''set''),
                             (''Node'', VMap [(''Node'', VStr ''n1'')])])]], [])"
  by code_simp

text \<open>
  Claim C4, amended. For a rule whose foreach pattern parses: when the pattern renders a
  text that is not empty and not \<^verbatim>\<open><no value>\<close> and names a field of the record that holds
  a sequence, the operations are, in the order of the sequence, one for each item for
  which \<^verbatim>\<open>generateSingleOperation\<close> succeeds; when the execution of the pattern fails or
  renders nothing or \<^verbatim>\<open><no value>\<close> (a missing field), or when no field holding a sequence
  is named and the rendered text does not decode as a JSON array with an item, there is
  no operation, no error and no log line.
\<close>

theorem foreach_expansion:
  assumes "template_Parse L [] (Foreach rule) = Inr tmpl"
  shows "(tmpl ctx = Inr out \<and> out \<noteq> '''' \<and> out \<noteq> ''<no value>'' \<and>
          parseFieldPath (Foreach rule) \<noteq> '''' \<and>
          map_of (Value ctx) (parseFieldPath (Foreach rule)) = Some (VList items)
          \<longrightarrow> fst (processForeach L rule ctx lg)
              = Inr (concat (map (\<lambda>item. case generateSingleOperation L rule (itemCtx ctx item) of
                                             Inl e \<Rightarrow> [] | Inr op \<Rightarrow> [op]) items)))
       \<and> (((\<exists>e. tmpl ctx = Inl e) \<or> tmpl ctx = Inr '''' \<or> tmpl ctx = Inr ''<no value>'' \<or>
           (tmpl ctx = Inr out \<and>
            (\<nexists>items. parseFieldPath (Foreach rule) \<noteq> '''' \<and>
                map_of (Value ctx) (parseFieldPath (Foreach rule)) = Some (VList items)) \<and>
            (json_Unmarshal_slice L out = None \<or> json_Unmarshal_slice L out = Some [])))
          \<longrightarrow> processForeach L rule ctx lg = (Inr [], lg))"
proof (intro conjI impI)
  assume a: "tmpl ctx = Inr out \<and> out \<noteq> '''' \<and> out \<noteq> ''<no value>'' \<and>
          parseFieldPath (Foreach rule) \<noteq> '''' \<and>
          map_of (Value ctx) (parseFieldPath (Foreach rule)) = Some (VList items)"
  then have "evaluateForeach L (Foreach rule) ctx = Inr items"
    using assms by (intro evaluateForeach_field[where out = out and tmpl = tmpl]) simp_all
  from processForeach_items[OF this]
  show "fst (processForeach L rule ctx lg)
        = Inr (concat (map (\<lambda>item. case generateSingleOperation L rule (itemCtx ctx item) of
                                       Inl e \<Rightarrow> [] | Inr op \<Rightarrow> [op]) items))"
    by (simp add: item_ops_def[abs_def])
next
  assume b: "(\<exists>e. tmpl ctx = Inl e) \<or> tmpl ctx = Inr '''' \<or> tmpl ctx = Inr ''<no value>'' \<or>
           (tmpl ctx = Inr out \<and>
            (\<nexists>items. parseFieldPath (Foreach rule) \<noteq> '''' \<and>
                map_of (Value ctx) (parseFieldPath (Foreach rule)) = Some (VList items)) \<and>
            (json_Unmarshal_slice L out = None \<or> json_Unmarshal_slice L out = Some []))"
  have "evaluateForeach L (Foreach rule) ctx = Inr []"
  proof (cases "(\<exists>e. tmpl ctx = Inl e) \<or> tmpl ctx = Inr '''' \<or> tmpl ctx = Inr ''<no value>''")
    case True
    with assms show ?thesis by (rule evaluateForeach_nothing)
  next
    case False
    with b have c: "tmpl ctx = Inr out"
      "\<nexists>items. parseFieldPath (Foreach rule) \<noteq> '''' \<and>
                map_of (Value ctx) (parseFieldPath (Foreach rule)) = Some (VList items)"
      "json_Unmarshal_slice L out = None \<or> json_Unmarshal_slice L out = Some []"
      by blast+
    from evaluateForeach_fallback[OF assms c] show ?thesis .
  qed
  then show "processForeach L rule ctx lg = (Inr [], lg)"
    by (simp add: processForeach_def)
qed

theorem foreach_expansion_witness:
  "template_Parse demo_lib [] (Foreach foreach_rule)
     = Inr (\<lambda>ctx. execute_nodes undefined ctx
                    [TextNode [], FieldNode [''Value'', ''nested_field''], TextNode []])
   \<and> execute_nodes undefined node_002
         [TextNode [], FieldNode [''Value'', ''nested_field''], TextNode []]
       = Inr ''[map[item1:sub1 item2:8080] map[item1:sub2 item2:9090]]''
   \<and> parseFieldPath (Foreach foreach_rule) = ''nested_field''
   \<and> fst (processForeach demo_lib foreach_rule node_002 [])
       = Inr [ [(''Service'',
                VMap [(''Verb'', VStr ''set''), (''Node'', VStr ''test-node-002''),
                      (''Service'',
                       VMap [(''ID'', VStr ''sub1''), (''Service'', VStr ''main-service''),
                             (''Port'', VInt 8080)])])],
              [(''Service'',
                VMap [(''Verb'', VStr ''set''), (''Node'', VStr ''test-node-002''),
                      (''Service'',
                       VMap [(''ID'', VStr ''sub2''), (''Service'', VStr ''main-service''),
                             (''Port'', VInt 9090)])])]]
   \<and> execute_nodes undefined node_003
         [TextNode [], FieldNode [''Value'', ''nested_field''], TextNode []]
       = Inr ''<no value>''
   \<and> processForeach demo_lib foreach_rule node_003 [] = (Inr [], [])"
proof -
  define tmpl where "tmpl = (\<lambda>ctx. execute_nodes undefined ctx
                    [TextNode [], FieldNode [''Value'', ''nested_field''], TextNode []])"
  define items where "items =
     [VMap [(''item1'', VStr ''sub1''), (''item2'', VFloat (Finite 8080))],
      VMap [(''item1'', VStr ''sub2''), (''item2'', VFloat (Finite 9090))]]"
  have pt: "parse_template (Foreach foreach_rule)
            = Inr [TextNode [], FieldNode [''Value'', ''nested_field''], TextNode []]"
    by code_simp
  have h: "template_Parse demo_lib [] (Foreach foreach_rule) = Inr tmpl"
    by (simp add: demo_lib_def model_lib_def model_template_Parse_def pt tmpl_def)
  have t2: "tmpl node_002 = Inr ''[map[item1:sub1 item2:8080] map[item1:sub2 item2:9090]]''"
    unfolding tmpl_def by code_simp
  have t3: "tmpl node_003 = Inr ''<no value>''"
    unfolding tmpl_def by code_simp
  have fp: "parseFieldPath (Foreach foreach_rule) = ''nested_field''"
    by code_simp
  have it: "map_of (Value node_002) (parseFieldPath (Foreach foreach_rule)) = Some (VList items)"
    unfolding fp items_def by (simp add: node_002_def)
  have ops: "concat (map (\<lambda>item. case generateSingleOperation demo_lib foreach_rule
                                         (itemCtx node_002 item) of
                                    Inl e \<Rightarrow> [] | Inr op \<Rightarrow> [op]) items)
             = [ [(''Service'',
                VMap [(''Verb'', VStr ''set''), (''Node'', VStr ''test-node-002''),
                      (''Service'',
                       VMap [(''ID'', VStr ''sub1''), (''Service'', VStr ''main-service''),
                             (''Port'', VInt 8080)])])],
              [(''Service'',
                VMap [(''Verb'', VStr ''set''), (''Node'', VStr ''test-node-002''),
                      (''Service'',
                       VMap [(''ID'', VStr ''sub2''), (''Service'', VStr ''main-service''),
                             (''Port'', VInt 9090)])])]]"
    unfolding items_def by code_simp
  from foreach_expansion[OF h, of node_002
         "''[map[item1:sub1 item2:8080] map[item1:sub2 item2:9090]]''" items "[]"]
       t2 fp it ops
  have r2: "fst (processForeach demo_lib foreach_rule node_002 [])
       = Inr [ [(''Service'',
                VMap [(''Verb'', VStr ''set''), (''Node'', VStr ''test-node-002''),
                      (''Service'',
                       VMap [(''ID'', VStr ''sub1''), (''Service'', VStr ''main-service''),
                             (''Port'', VInt 8080)])])],
              [(''Service'',
                VMap [(''Verb'', VStr ''set''), (''Node'', VStr ''test-node-002''),
                      (''Service'',
                       VMap [(''ID'', VStr ''sub2''), (''Service'', VStr ''main-service''),
                             (''Port'', VInt 9090)])])]]"
    by simp
  from foreach_expansion[OF h, of node_003 "[]" "[]" "[]"] t3
  have r3: "processForeach demo_lib foreach_rule node_003 [] = (Inr [], [])"
    by simp
  from h t2 t3 fp r2 r3 show ?thesis
    unfolding tmpl_def by simp
qed

lemma processTemplate_map_result:
  assumes "processTemplate_map L kvs ctx acc = Inr r"
    and "distinct (map fst kvs)"
  shows "\<exists>res. r = VMap res \<and>
           (distinct (map fst acc) \<longrightarrow> distinct (map fst res)) \<and>
           map_of res =
             (\<lambda>k. case map_of kvs k of
                     None \<Rightarrow> map_of acc k
                   | Some v \<Rightarrow>
                       (case processTemplate L v ctx of
                          Inl e \<Rightarrow> map_of acc k
                        | Inr p \<Rightarrow> if keep p then Some p else map_of acc k))"
  using assms
proof (induction kvs arbitrary: acc)
  case Nil
  then show ?case by auto
next
  case (Cons kv rest)
  obtain key v where kv: "kv = (key, v)" by (cases kv)
  from Cons.prems(1) obtain p where p: "processTemplate L v ctx = Inr p"
    unfolding kv by (cases "processTemplate L v ctx") simp_all
  define acc' where "acc' = (if keep p then AList.update key p acc else acc)"
  from Cons.prems(1) p have rec: "processTemplate_map L rest ctx acc' = Inr r"
    unfolding kv acc'_def by simp
  from Cons.prems(2) have d: "distinct (map fst rest)" and nk: "map_of rest key = None"
    unfolding kv by (auto simp: map_of_eq_None_iff)
  from Cons.IH[OF rec d] obtain res where
    res: "r = VMap res" "distinct (map fst acc') \<longrightarrow> distinct (map fst res)"
      "map_of res =
         (\<lambda>k. case map_of rest k of
                 None \<Rightarrow> map_of acc' k
               | Some v \<Rightarrow>
                   (case processTemplate L v ctx of
                      Inl e \<Rightarrow> map_of acc' k
                    | Inr p \<Rightarrow> if keep p then Some p else map_of acc' k))"
    by blast
  have da: "distinct (map fst acc) \<Longrightarrow> distinct (map fst acc')"
    by (simp add: acc'_def distinct_update)
  have other: "map_of acc' k = map_of acc k" if "k \<noteq> key" for k
    using that by (simp add: acc'_def update_conv')
  have here: "map_of acc' key = (if keep p then Some p else map_of acc key)"
    by (simp add: acc'_def update_conv')
  have "map_of res k =
          (case map_of (kv # rest) k of
             None \<Rightarrow> map_of acc k
           | Some v \<Rightarrow>
               (case processTemplate L v ctx of
                  Inl e \<Rightarrow> map_of acc k
                | Inr p \<Rightarrow> if keep p then Some p else map_of acc k))" for k
  proof (cases "k = key")
    case True
    then show ?thesis
      unfolding kv by (simp add: res(3) nk here p)
  next
    case False
    then show ?thesis
      unfolding kv by (simp add: res(3) other split: option.splits sum.splits)
  qed
  then have "map_of res =
          (\<lambda>k. case map_of (kv # rest) k of
             None \<Rightarrow> map_of acc k
           | Some v \<Rightarrow>
               (case processTemplate L v ctx of
                  Inl e \<Rightarrow> map_of acc k
                | Inr p \<Rightarrow> if keep p then Some p else map_of acc k))"
    by (rule ext)
  with res(1,2) da show ?case by blast
qed

text \<open>
  Claim C5. When a mapping template with distinct keys is processed, the result is a
  mapping that holds, under the same key, the processed value of exactly those entries
  whose processed value is not nil, not the empty string and not \<^verbatim>\<open><no value>\<close>; no key of
  the result holds the empty string.
\<close>

theorem mapping_keeps_nonempty_entries:
  assumes "processTemplate L (VMap tmpl) ctx = Inr r"
    and "distinct (map fst tmpl)"
  shows "\<exists>res. r = VMap res \<and> distinct (map fst res) \<and>
           (\<forall>k p. map_of res k = Some p \<longleftrightarrow>
                    (\<exists>v. map_of tmpl k = Some v \<and> processTemplate L v ctx = Inr p \<and>
                         p \<noteq> VNil \<and> p \<noteq> VStr '''' \<and> p \<noteq> VStr ''<no value>'')) \<and>
           (\<forall>k. map_of res k \<noteq> Some (VStr ''''))"
proof -
  from assms(1) have "processTemplate_map L tmpl ctx [] = Inr r" by simp
  from processTemplate_map_result[OF this assms(2)] obtain res where
    res: "r = VMap res" "distinct (map fst res)"
      "map_of res =
         (\<lambda>k. case map_of tmpl k of
                 None \<Rightarrow> map_of [] k
               | Some v \<Rightarrow>
                   (case processTemplate L v ctx of
                      Inl e \<Rightarrow> map_of [] k
                    | Inr p \<Rightarrow> if keep p then Some p else map_of [] k))"
    by auto
  have iff: "map_of res k = Some p \<longleftrightarrow>
               (\<exists>v. map_of tmpl k = Some v \<and> processTemplate L v ctx = Inr p \<and>
                    p \<noteq> VNil \<and> p \<noteq> VStr '''' \<and> p \<noteq> VStr ''<no value>'')" for k p
    unfolding res(3) keep_def by (auto split: option.splits sum.splits)
  have "map_of res k \<noteq> Some (VStr '''')" for k
    using iff[of k "VStr ''''"] by simp
  with res(1,2) iff show ?thesis by blast
qed

theorem mapping_keeps_nonempty_entries_witness:
  "processTemplate demo_lib
     (VMap [(''name'', VStr ''{{.Key}}''), (''address'', VStr ''{{.Value.addr}}'')])
     \<lparr>Key = ''n1'', Value = [], Datacenter = ''dc1'', Item = VNil\<rparr>
   = Inr (VMap [(''name'', VStr ''n1'')])
   \<and> distinct (map fst [(''name'', VStr ''{{.Key}}''), (''address'', VStr ''{{.Value.addr}}'')])
   \<and> (\<exists>res. VMap [(''name'', VStr ''n1'')] = VMap res \<and> distinct (map fst res) \<and>
           (\<forall>k p. map_of res k = Some p \<longleftrightarrow>
                    (\<exists>v. map_of [(''name'', VStr ''{{.Key}}''),
                                  (''address'', VStr ''{{.Value.addr}}'')] k = Some v \<and>
                         processTemplate demo_lib v
                           \<lparr>Key = ''n1'', Value = [], Datacenter = ''dc1'', Item = VNil\<rparr> = Inr p \<and>
                         p \<noteq> VNil \<and> p \<noteq> VStr '''' \<and> p \<noteq> VStr ''<no value>'')) \<and>
           (\<forall>k. map_of res k \<noteq> Some (VStr '''')))"
proof -
  have h1: "processTemplate demo_lib
     (VMap [(''name'', VStr ''{{.Key}}''), (''address'', VStr ''{{.Value.addr}}'')])
     \<lparr>Key = ''n1'', Value = [], Datacenter = ''dc1'', Item = VNil\<rparr>
   = Inr (VMap [(''name'', VStr ''n1'')])"
    by code_simp
  have h2: "distinct (map fst [(''name'', VStr ''{{.Key}}''),
                               (''address'', VStr ''{{.Value.addr}}'')])"
    by simp
  from mapping_keeps_nonempty_entries[OF h1 h2] h1 h2 show ?thesis by blast
qed

lemma truncation_bounds:
  fixes f :: rat and B :: int
  assumes "\<bar>f\<bar> < of_int B"
  shows "- B \<le> (if f < 0 then - \<lfloor>- f\<rfloor> else \<lfloor>f\<rfloor>)
         \<and> (if f < 0 then - \<lfloor>- f\<rfloor> else \<lfloor>f\<rfloor>) < B"
proof -
  from assms have u: "f < of_int B" and l: "- f < of_int B" by (simp_all add: abs_less_iff)
  from u have fu: "\<lfloor>f\<rfloor> < B" by (simp only: floor_less_iff)
  from l have fl: "\<lfloor>- f\<rfloor> < B" by (simp only: floor_less_iff)
  show ?thesis
  proof (cases "f < 0")
    case True
    then have "0 \<le> \<lfloor>- f\<rfloor>" by simp
    with fl have "- B \<le> - \<lfloor>- f\<rfloor> \<and> - \<lfloor>- f\<rfloor> < B" by linarith
    with True show ?thesis by (simp only: if_True)
  next
    case False
    then have "0 \<le> \<lfloor>f\<rfloor>" by simp
    with fu have "- B \<le> \<lfloor>f\<rfloor> \<and> \<lfloor>f\<rfloor> < B" by linarith
    with False show ?thesis by (simp only: if_False)
  qed
qed

text \<open>
  Claim C6, as stated, fails. The string \<^verbatim>\<open>1.5\<close> denotes the number 3/2 and is coerced to
  the integer 1, and the string \<^verbatim>\<open>null\<close>, which is not a number, is coerced to 0 instead
  of being returned unchanged.
\<close>

theorem scalar_coercion_counterexample:
  "json_number ''1.5'' = Some (3 / 2) \<and>
   processTemplate demo_lib (VStr ''1.5'') node_003 = Inr (VInt 1) \<and>
   json_number ''null'' = None \<and>
   processTemplate demo_lib (VStr ''null'') node_003 = Inr (VInt 0)"
  by code_simp

text \<open>
  Claim C6, amended. For every library, string leaf and context in which the leaf
  evaluates to a string \<open>r\<close>: when \<^verbatim>\<open>json.Unmarshal\<close> decodes \<open>r\<close> into a float64 \<open>f\<close> that
  fits the 64-bit \<^verbatim>\<open>int\<close>, the result is the integer that \<open>f\<close> truncates to, toward zero
  (so \<^verbatim>\<open>8080\<close> becomes 8080 and \<^verbatim>\<open>1.5\<close> becomes 1); when \<^verbatim>\<open>json.Unmarshal\<close> returns an
  error, the result is the string \<open>r\<close> unchanged.
\<close>

theorem scalar_coercion:
  assumes "evaluateTemplate L s ctx = Inr r"
  shows "(json_Unmarshal_float64 L r = Some f \<and> \<bar>f\<bar> < 2 ^ 63
          \<longrightarrow> processTemplate L (VStr s) ctx
              = Inr (VInt (if f < 0 then - \<lfloor>- f\<rfloor> else \<lfloor>f\<rfloor>)))
       \<and> (json_Unmarshal_float64 L r = None
          \<longrightarrow> processTemplate L (VStr s) ctx = Inr (VStr r))"
proof (intro conjI impI)
  assume a: "json_Unmarshal_float64 L r = Some f \<and> \<bar>f\<bar> < 2 ^ 63"
  define t where "t = (if f < 0 then - \<lfloor>- f\<rfloor> else \<lfloor>f\<rfloor>)"
  from a have "\<bar>f\<bar> < of_int (2 ^ 63)" by simp
  from truncation_bounds[OF this] have "- (2 ^ 63) \<le> t \<and> t < 2 ^ 63"
    unfolding t_def .
  then have "int_of_float64 f = t"
    unfolding int_of_float64_def t_def[symmetric] Let_def by simp
  with a assms show "processTemplate L (VStr s) ctx
        = Inr (VInt (if f < 0 then - \<lfloor>- f\<rfloor> else \<lfloor>f\<rfloor>))"
    unfolding t_def by simp
next
  assume "json_Unmarshal_float64 L r = None"
  with assms show "processTemplate L (VStr s) ctx = Inr (VStr r)" by simp
qed

theorem scalar_coercion_witness:
  "evaluateTemplate demo_lib ''{{ .Value.port }}'' port_node = Inr ''8080'' \<and>
   json_Unmarshal_float64 demo_lib ''8080'' = Some 8080 \<and>
   processTemplate demo_lib (VStr ''{{ .Value.port }}'') port_node = Inr (VInt 8080) \<and>
   evaluateTemplate demo_lib ''{{ .Value.address }}'' port_node = Inr ''192.168.1.1'' \<and>
   json_Unmarshal_float64 demo_lib ''192.168.1.1'' = None \<and>
   processTemplate demo_lib (VStr ''{{ .Value.address }}'') port_node
   = Inr (VStr ''192.168.1.1'')"
proof -
  have e1: "evaluateTemplate demo_lib ''{{ .Value.port }}'' port_node = Inr ''8080''"
    by code_simp
  have j1: "json_Unmarshal_float64 demo_lib ''8080'' = Some 8080"
    by code_simp
  have e2: "evaluateTemplate demo_lib ''{{ .Value.address }}'' port_node = Inr ''192.168.1.1''"
    by code_simp
  have j2: "json_Unmarshal_float64 demo_lib ''192.168.1.1'' = None"
    by code_simp
  from scalar_coercion[OF e1, of 8080] j1
  have p1: "processTemplate demo_lib (VStr ''{{ .Value.port }}'') port_node = Inr (VInt 8080)"
    by simp
  from scalar_coercion[OF e2, of 0] j2
  have p2: "processTemplate demo_lib (VStr ''{{ .Value.address }}'') port_node
            = Inr (VStr ''192.168.1.1'')"
    by simp
  from e1 j1 p1 e2 j2 p2 show ?thesis by simp
qed

subsection \<open>References that cannot be resolved\<close>













lemma fst_generateAllOperations_loop:
  "fst (generateAllOperations_loop L vars cfg dc (ops, lg))
   = ops @ concat (map (record_ops L cfg dc) vars)"
proof (induction vars arbitrary: ops lg)
  case Nil
  show ?case by simp
next
  case (Cons kv vars)
  obtain key v where kv: "kv = (key, v)" by (cases kv)
  show ?case
  proof (cases "\<exists>nv. v = VMap nv")
    case True
    then obtain nv where v: "v = VMap nv" by blast
    define c where "c = \<lparr>Key = key, Value = nv, Datacenter = dc, Item = VNil\<rparr>"
    obtain r lg' where g: "GenerateOperations L c cfg lg = (r, lg')" by force
    from fst_GenerateOperations[of L c cfg lg] g
    have r: "r = Inr (concat (map (rule_ops L c) (Operations cfg)))" by simp
    show ?thesis
      unfolding kv v using g r
      by (simp add: Cons.IH record_ops_def c_def)
  next
    case False
    then show ?thesis
      unfolding kv by (cases v) (simp_all add: Cons.IH record_ops_def)
  qed
qed

lemma fst_generateAllOperations:
  "fst (generateAllOperations L vars cfg dc lg) = concat (map (record_ops L cfg dc) vars)"
  using fst_generateAllOperations_loop[of L vars cfg dc "[]"]
  by (simp add: generateAllOperations_def Let_def split_beta)

lemma wrapService_missing:
  assumes "(\<nexists>s. map_of data ''Node'' = Some (VStr s))
           \<or> (\<nexists>m. map_of data ''Service'' = Some (VMap m))"
  shows "wrapServiceOperation verb data
         = Inl ''invalid service operation: missing Node or Service''"
  using assms
  by (auto simp: wrapServiceOperation_def Let_def split: option.splits val.splits)

lemma wrapCheck_missing:
  assumes "(\<nexists>s. map_of data ''Node'' = Some (VStr s))
           \<or> (\<nexists>m. map_of data ''Check'' = Some (VMap m))"
  shows "wrapCheckOperation verb data = Inl ''invalid check operation: missing Node or Check''"
  using assms
  by (auto simp: wrapCheckOperation_def Let_def split: option.splits val.splits)

lemma wrapOperation_Service:
  "wrapOperation ''Service'' verb data = wrapServiceOperation verb data"
  by (simp add: wrapOperation_def)

lemma wrapOperation_Check:
  "wrapOperation ''Check'' verb data = wrapCheckOperation verb data"
  by (simp add: wrapOperation_def)

text \<open>
  Claim C8. For a kind that is \<^verbatim>\<open>Service\<close> or \<^verbatim>\<open>Check\<close>, every verb and every processed map
  without a string under \<^verbatim>\<open>Node\<close> or without a mapping under the kind's name, wrapping
  fails with the missing-field error and yields no operation. The run goes on: when a rule
  without foreach fails so on a record, \<^verbatim>\<open>GenerateOperations\<close> returns for the record what
  it returns without the rule, and \<^verbatim>\<open>generateAllOperations\<close> returns the operations of
  the records before, of this record without the rule, and of the records after.
\<close>

theorem wrap_requires_fields:
  assumes "kind = ''Service'' \<or> kind = ''Check''"
    and "(\<nexists>s. map_of data ''Node'' = Some (VStr s))
         \<or> (\<nexists>m. map_of data kind = Some (VMap m))"
  shows "wrapOperation kind verb data
           = Inl (if kind = ''Service''
                  then ''invalid service operation: missing Node or Service''
                  else ''invalid check operation: missing Node or Check'')
         \<and> (Type rule = kind \<and> Foreach rule = '''' \<and>
              processTemplate L (VMap (Template rule))
                \<lparr>Key = key, Value = nodeValue, Datacenter = dc, Item = VNil\<rparr> = Inr (VMap data)
            \<longrightarrow> fst (GenerateOperations L
                       \<lparr>Key = key, Value = nodeValue, Datacenter = dc, Item = VNil\<rparr>
                       \<lparr>Operations = before @ rule # after\<rparr> lg)
                = fst (GenerateOperations L
                       \<lparr>Key = key, Value = nodeValue, Datacenter = dc, Item = VNil\<rparr>
                       \<lparr>Operations = before @ after\<rparr> lg)
              \<and> fst (generateAllOperations L (vars1 @ (key, VMap nodeValue) # vars2)
                       \<lparr>Operations = before @ rule # after\<rparr> dc lg)
                = fst (generateAllOperations L vars1
                         \<lparr>Operations = before @ rule # after\<rparr> dc lg)
                  @ fst (generateAllOperations L [(key, VMap nodeValue)]
                           \<lparr>Operations = before @ after\<rparr> dc lg)
                  @ fst (generateAllOperations L vars2
                           \<lparr>Operations = before @ rule # after\<rparr> dc lg))"
proof -
  define c where "c = \<lparr>Key = key, Value = nodeValue, Datacenter = dc, Item = VNil\<rparr>"
  define msg where "msg = (if kind = ''Service''
                  then ''invalid service operation: missing Node or Service''
                  else ''invalid check operation: missing Node or Check'')"
  have w: "wrapOperation kind v data = Inl msg" for v
  proof (cases "kind = ''Service''")
    case True
    have "msg = ''invalid service operation: missing Node or Service''"
      unfolding msg_def using True by simp
    with assms(2) show ?thesis
      unfolding True by (simp only: wrapOperation_Service wrapService_missing)
  next
    case False
    with assms(1) have k: "kind = ''Check''" by simp
    have "msg = ''invalid check operation: missing Node or Check''"
      unfolding msg_def using False by simp
    with assms(2) show ?thesis
      unfolding k by (simp only: wrapOperation_Check wrapCheck_missing)
  qed
  have r: "rule_ops L c rule = []"
    if "Type rule = kind" "Foreach rule = ''''"
       "processTemplate L (VMap (Template rule)) c = Inr (VMap data)"
  proof -
    have "generateSingleOperation L rule c = Inl (''template processing failed: '' @ msg)
          \<or> generateSingleOperation L rule c = Inl msg"
      using that(1,3) w by (simp add: generateSingleOperation_def Let_def)
    then obtain e where "generateSingleOperation L rule c = Inl e" by blast
    with that(2) show ?thesis by (rule rule_ops_failed)
  qed
  have g: "fst (GenerateOperations L c \<lparr>Operations = before @ rule # after\<rparr> lg)
           = fst (GenerateOperations L c \<lparr>Operations = before @ after\<rparr> lg)"
    if "rule_ops L c rule = []"
    using that by (simp add: fst_GenerateOperations)
  have a: "fst (generateAllOperations L (vars1 @ (key, VMap nodeValue) # vars2)
                       \<lparr>Operations = before @ rule # after\<rparr> dc lg)
                = fst (generateAllOperations L vars1
                         \<lparr>Operations = before @ rule # after\<rparr> dc lg)
                  @ fst (generateAllOperations L [(key, VMap nodeValue)]
                           \<lparr>Operations = before @ after\<rparr> dc lg)
                  @ fst (generateAllOperations L vars2
                           \<lparr>Operations = before @ rule # after\<rparr> dc lg)"
    if "rule_ops L c rule = []"
    using that by (simp add: fst_generateAllOperations record_ops_def c_def)
  from w[of verb] r g a show ?thesis
    unfolding c_def msg_def by blast
qed

theorem wrap_requires_fields_witness:
  "wrapOperation ''Service'' ''set'' nodeless_data
     = Inl ''invalid service operation: missing Node or Service''
   \<and> processTemplate demo_lib (VMap (Template nodeless_rule))
         \<lparr>Key = ''test-node-003'',
          Value = [(''field2'', VStr ''10.0.0.3''), (''field3'', VStr ''type-c'')],
          Datacenter = ''dc1'', Item = VNil\<rparr>
       = Inr (VMap nodeless_data)
   \<and> fst (GenerateOperations demo_lib
            \<lparr>Key = ''test-node-003'',
             Value = [(''field2'', VStr ''10.0.0.3''), (''field3'', VStr ''type-c'')],
             Datacenter = ''dc1'', Item = VNil\<rparr>
            \<lparr>Operations = [node_rule] @ nodeless_rule # [node_rule]\<rparr> [])
     = fst (GenerateOperations demo_lib
            \<lparr>Key = ''test-node-003'',
             Value = [(''field2'', VStr ''10.0.0.3''), (''field3'', VStr ''type-c'')],
             Datacenter = ''dc1'', Item = VNil\<rparr>
            \<lparr>Operations = [node_rule] @ [node_rule]\<rparr> [])"
proof -
  have h1: "''Service'' = ''Service'' \<or> ''Service'' = ''Check''" by simp
  have h2: "(\<nexists>s. map_of nodeless_data ''Node'' = Some (VStr s))
            \<or> (\<nexists>m. map_of nodeless_data ''Service'' = Some (VMap m))"
    by (simp add: nodeless_data_def)
  have p: "Type nodeless_rule = ''Service'' \<and> Foreach nodeless_rule = '''' \<and>
           processTemplate demo_lib (VMap (Template nodeless_rule))
             \<lparr>Key = ''test-node-003'',
              Value = [(''field2'', VStr ''10.0.0.3''), (''field3'', VStr ''type-c'')],
              Datacenter = ''dc1'', Item = VNil\<rparr>
           = Inr (VMap nodeless_data)"
    by code_simp
  from wrap_requires_fields[OF h1 h2, of "''set''" nodeless_rule demo_lib "''test-node-003''"
         "[(''field2'', VStr ''10.0.0.3''), (''field3'', VStr ''type-c'')]" "''dc1''"
         "[node_rule]" "[node_rule]" "[]" "[]" "[]"] p
  show ?thesis by simp
qed

text \<open>
  Claim C9. The context that \<^verbatim>\<open>processForeach\<close> derives for an item has the key, the field
  mapping and the datacenter of the base context, and the item as its current item. Every
  iteration derives its context from the same base context: the operations of a foreach
  are, item by item and in order, what \<^verbatim>\<open>generateSingleOperation\<close> gives for the context
  of that item alone.
\<close>

theorem item_context_frame:
  "Key (itemCtx ctx item) = Key ctx \<and>
   Value (itemCtx ctx item) = Value ctx \<and>
   Datacenter (itemCtx ctx item) = Datacenter ctx \<and>
   Item (itemCtx ctx item) = item \<and>
   fst (processForeach_loop L rule ctx items (ops, lg))
   = ops @ concat (map (\<lambda>item. case generateSingleOperation L rule (itemCtx ctx item) of
                                   Inl e \<Rightarrow> [] | Inr op \<Rightarrow> [op]) items)"
  using fst_processForeach_loop[of L rule ctx items ops lg]
  by (simp add: itemCtx_def item_ops_def[abs_def])

theorem item_context_frame_witness:
  "Key (itemCtx node_002 (VStr ''a'')) = Key node_002 \<and>
   Value (itemCtx node_002 (VStr ''a'')) = Value node_002 \<and>
   Datacenter (itemCtx node_002 (VStr ''a'')) = Datacenter node_002 \<and>
   Item (itemCtx node_002 (VStr ''a'')) = VStr ''a'' \<and>
   fst (processForeach_loop demo_lib foreach_rule node_002 [VStr ''a'', VNil] ([], []))
   = [] @ concat (map (\<lambda>item. case generateSingleOperation demo_lib foreach_rule
                                        (itemCtx node_002 item) of
                                   Inl e \<Rightarrow> [] | Inr op \<Rightarrow> [op]) [VStr ''a'', VNil])"
  by (rule item_context_frame)

subsection \<open>What the loops do with a failure\<close>

text \<open>
  Both loops only append: to the operations what the items and rules contribute, to the
  log what they log, whatever the operations and the log were before.
\<close>

lemma processForeach_loop_eq:
  "processForeach_loop L rule ctx items (ops, lg)
   = (ops @ concat (map (item_ops L rule ctx) items),
      lg @ concat (map (item_log L rule ctx) items))"
  by (induction items arbitrary: ops lg)
     (auto simp: item_ops_def item_log_def split: sum.splits)

lemma processForeach_eq:
  "processForeach L rule ctx lg
   = (case evaluateForeach L (Foreach rule) ctx of
        Inl e \<Rightarrow> (Inl e, lg)
      | Inr items \<Rightarrow> (Inr (concat (map (item_ops L rule ctx) items)),
                      lg @ concat (map (item_log L rule ctx) items)))"
  by (simp add: processForeach_def processForeach_loop_eq split: sum.splits)

lemma GenerateOperations_emit_eq:
  "GenerateOperations_emit L ctx rule (ops, lg)
   = (ops @ fst (GenerateOperations_emit L ctx rule ([], [])),
      lg @ snd (GenerateOperations_emit L ctx rule ([], [])))"
  by (simp add: GenerateOperations_emit_def processForeach_eq split: sum.splits)

lemma GenerateOperations_loop_eq:
  "GenerateOperations_loop L ctx rules (ops, lg)
   = (ops @ concat (map (rule_ops L ctx) rules),
      lg @ concat (map (rule_log L ctx) rules))"
proof (induction rules arbitrary: ops lg)
  case Nil
  show ?case by simp
next
  case (Cons r rules)
  obtain o2 l2 where e2: "GenerateOperations_emit L ctx r ([], []) = (o2, l2)" by force
  from GenerateOperations_emit_eq[of L ctx r ops lg] e2
  have e1: "GenerateOperations_emit L ctx r (ops, lg) = (ops @ o2, lg @ l2)" by simp
  show ?case
    by (simp add: Cons.IH rule_ops_def rule_log_def e1 e2 split: sum.splits)
qed

lemma GenerateOperations_eq:
  "GenerateOperations L ctx config lg
   = (Inr (concat (map (rule_ops L ctx) (Operations config))),
      lg @ concat (map (rule_log L ctx) (Operations config)))"
  by (simp add: GenerateOperations_def GenerateOperations_loop_eq)

text \<open>What a failing rule and a failing item contribute: no operation and one line.\<close>

lemma condition_error_unit:
  assumes "Condition rule \<noteq> ''''" and "evaluateTemplate L (Condition rule) ctx = Inl e"
  shows "rule_ops L ctx rule = [] \<and>
         rule_log L ctx rule
         = [''[WARN] Failed to evaluate condition for '' @ Key ctx @ '': '' @ e]"
  using assms by (simp add: rule_ops_def rule_log_def)

lemma foreach_error_unit:
  assumes "condition_passes L ctx rule" and "Foreach rule \<noteq> ''''"
    and "evaluateForeach L (Foreach rule) ctx = Inl e"
  shows "rule_ops L ctx rule = [] \<and>
         rule_log L ctx rule
         = [''[WARN] Failed to process foreach for '' @ Key ctx @ '': '' @ e]"
  using assms
  by (auto simp: rule_ops_def rule_log_def condition_passes_def GenerateOperations_emit_def
                 processForeach_def split: sum.splits)

lemma single_error_unit:
  assumes "condition_passes L ctx rule" and "Foreach rule = ''''"
    and "generateSingleOperation L rule ctx = Inl e"
  shows "rule_ops L ctx rule = [] \<and>
         rule_log L ctx rule
         = [''[WARN] Failed to generate operation for '' @ Key ctx @ '': '' @ e]"
  using assms
  by (auto simp: rule_ops_def rule_log_def condition_passes_def GenerateOperations_emit_def
           split: sum.splits)

lemma foreach_items_unit:
  assumes "condition_passes L ctx rule" and "Foreach rule \<noteq> ''''"
    and "evaluateForeach L (Foreach rule) ctx = Inr items"
  shows "rule_ops L ctx rule = concat (map (item_ops L rule ctx) items) \<and>
         rule_log L ctx rule = concat (map (item_log L rule ctx) items)"
  using assms
  by (auto simp: rule_ops_def rule_log_def condition_passes_def GenerateOperations_emit_def
                 processForeach_eq split: sum.splits)

lemma item_error_unit:
  assumes "generateSingleOperation L rule (itemCtx ctx item) = Inl e"
  shows "item_ops L rule ctx item = [] \<and>
         item_log L rule ctx item
         = [''[WARN] Failed to generate operation for item in '' @ Key ctx @ '': '' @ e]"
  using assms by (simp add: item_ops_def item_log_def)

lemma failed_rule_skipped:
  assumes "rule_ops L ctx rule = []" and "rule_log L ctx rule = [msg]"
  shows "GenerateOperations_loop L ctx (rule # rules) (ops, l)
         = GenerateOperations_loop L ctx rules (ops, l @ [msg])"
    and "GenerateOperations L ctx \<lparr>Operations = before @ rule # after\<rparr> lg
         = (fst (GenerateOperations L ctx \<lparr>Operations = before @ after\<rparr> lg),
            snd (GenerateOperations L ctx \<lparr>Operations = after\<rparr>
                   (snd (GenerateOperations L ctx \<lparr>Operations = before\<rparr> lg) @ [msg])))"
  using assms by (simp_all add: GenerateOperations_loop_eq GenerateOperations_eq)

lemma failed_item_skipped:
  assumes "item_ops L rule ctx item = []" and "item_log L rule ctx item = [imsg]"
  shows "processForeach_loop L rule ctx (xs @ item # ys) (ops, l)
         = processForeach_loop L rule ctx ys
             (fst (processForeach_loop L rule ctx xs (ops, l)),
              snd (processForeach_loop L rule ctx xs (ops, l)) @ [imsg])"
    and "condition_passes L ctx rule \<and> Foreach rule \<noteq> '''' \<and>
         evaluateForeach L (Foreach rule) ctx = Inr (xs @ item # ys)
         \<longrightarrow> GenerateOperations L ctx \<lparr>Operations = before @ rule # after\<rparr> lg
             = (Inr (concat (map (rule_ops L ctx) before)
                     @ concat (map (item_ops L rule ctx) (xs @ ys))
                     @ concat (map (rule_ops L ctx) after)),
                lg @ concat (map (rule_log L ctx) before)
                   @ concat (map (item_log L rule ctx) xs) @ [imsg]
                   @ concat (map (item_log L rule ctx) ys)
                   @ concat (map (rule_log L ctx) after))"
proof -
  show "processForeach_loop L rule ctx (xs @ item # ys) (ops, l)
         = processForeach_loop L rule ctx ys
             (fst (processForeach_loop L rule ctx xs (ops, l)),
              snd (processForeach_loop L rule ctx xs (ops, l)) @ [imsg])"
    using assms by (simp add: processForeach_loop_eq)
  show "condition_passes L ctx rule \<and> Foreach rule \<noteq> '''' \<and>
         evaluateForeach L (Foreach rule) ctx = Inr (xs @ item # ys)
         \<longrightarrow> GenerateOperations L ctx \<lparr>Operations = before @ rule # after\<rparr> lg
             = (Inr (concat (map (rule_ops L ctx) before)
                     @ concat (map (item_ops L rule ctx) (xs @ ys))
                     @ concat (map (rule_ops L ctx) after)),
                lg @ concat (map (rule_log L ctx) before)
                   @ concat (map (item_log L rule ctx) xs) @ [imsg]
                   @ concat (map (item_log L rule ctx) ys)
                   @ concat (map (rule_log L ctx) after))"
  proof
    assume a: "condition_passes L ctx rule \<and> Foreach rule \<noteq> '''' \<and>
               evaluateForeach L (Foreach rule) ctx = Inr (xs @ item # ys)"
    then have u: "rule_ops L ctx rule = concat (map (item_ops L rule ctx) (xs @ item # ys)) \<and>
                  rule_log L ctx rule = concat (map (item_log L rule ctx) (xs @ item # ys))"
      by (intro foreach_items_unit) simp_all
    show "GenerateOperations L ctx \<lparr>Operations = before @ rule # after\<rparr> lg
             = (Inr (concat (map (rule_ops L ctx) before)
                     @ concat (map (item_ops L rule ctx) (xs @ ys))
                     @ concat (map (rule_ops L ctx) after)),
                lg @ concat (map (rule_log L ctx) before)
                   @ concat (map (item_log L rule ctx) xs) @ [imsg]
                   @ concat (map (item_log L rule ctx) ys)
                   @ concat (map (rule_log L ctx) after))"
      using u assms by (simp add: GenerateOperations_eq)
  qed
qed

text \<open>
  Claim C10. For every library, context, mapping configuration and log:
  \<^item> \<^verbatim>\<open>GenerateOperations\<close> returns a list of operations and the nil error, and its log is
    the log it was given with lines added at the end;
  \<^item> a rule that fails, because its condition does not evaluate, because (its condition
    passing) its foreach expression is in error, or because (its condition passing and
    having no foreach) \<^verbatim>\<open>generateSingleOperation\<close> returns an error, is logged and skipped
    inside the loop: the loop goes on to the rules that follow with the operations it had
    and with the one \<^verbatim>\<open>[WARN]\<close> line of that failure added to the log, so that
    \<^verbatim>\<open>GenerateOperations\<close> returns the operations it returns without the rule, and the log
    of the rules before it, the warning, and what the rules after it log;
  \<^item> an item of a foreach for which \<^verbatim>\<open>generateSingleOperation\<close> returns an error is logged
    and skipped inside the loop over the items: that loop goes on to the items that
    follow with the one \<^verbatim>\<open>[WARN]\<close> line added, and \<^verbatim>\<open>GenerateOperations\<close> returns the
    operations of the other items and of the other rules, and a log with that line;
  \<^item> the errors of \<^verbatim>\<open>generateSingleOperation\<close> include the failure to process the
    template and the error of the wrapping function.
\<close>

theorem GenerateOperations_never_fails:
  "(\<exists>operations new. GenerateOperations L ctx config lg = (Inr operations, lg @ new))
   \<and> ((Condition rule \<noteq> '''' \<and> evaluateTemplate L (Condition rule) ctx = Inl e \<and>
        msg = ''[WARN] Failed to evaluate condition for '' @ Key ctx @ '': '' @ e)
       \<or> (condition_passes L ctx rule \<and> Foreach rule \<noteq> '''' \<and>
           evaluateForeach L (Foreach rule) ctx = Inl e \<and>
           msg = ''[WARN] Failed to process foreach for '' @ Key ctx @ '': '' @ e)
       \<or> (condition_passes L ctx rule \<and> Foreach rule = '''' \<and>
           generateSingleOperation L rule ctx = Inl e \<and>
           msg = ''[WARN] Failed to generate operation for '' @ Key ctx @ '': '' @ e)
       \<longrightarrow> GenerateOperations_loop L ctx (rule # rules) (ops, l)
           = GenerateOperations_loop L ctx rules (ops, l @ [msg])
         \<and> GenerateOperations L ctx \<lparr>Operations = before @ rule # after\<rparr> lg
           = (fst (GenerateOperations L ctx \<lparr>Operations = before @ after\<rparr> lg),
              snd (GenerateOperations L ctx \<lparr>Operations = after\<rparr>
                     (snd (GenerateOperations L ctx \<lparr>Operations = before\<rparr> lg) @ [msg]))))
   \<and> (generateSingleOperation L frule (itemCtx ctx item) = Inl ie \<and>
       imsg = ''[WARN] Failed to generate operation for item in '' @ Key ctx @ '': '' @ ie
       \<longrightarrow> processForeach_loop L frule ctx (xs @ item # ys) (ops, l)
           = processForeach_loop L frule ctx ys
               (fst (processForeach_loop L frule ctx xs (ops, l)),
                snd (processForeach_loop L frule ctx xs (ops, l)) @ [imsg])
         \<and> (condition_passes L ctx frule \<and> Foreach frule \<noteq> '''' \<and>
            evaluateForeach L (Foreach frule) ctx = Inr (xs @ item # ys)
            \<longrightarrow> GenerateOperations L ctx \<lparr>Operations = before @ frule # after\<rparr> lg
                = (Inr (concat (map (rule_ops L ctx) before)
                        @ concat (map (item_ops L frule ctx) (xs @ ys))
                        @ concat (map (rule_ops L ctx) after)),
                   lg @ concat (map (rule_log L ctx) before)
                      @ concat (map (item_log L frule ctx) xs) @ [imsg]
                      @ concat (map (item_log L frule ctx) ys)
                      @ concat (map (rule_log L ctx) after))))
   \<and> (processTemplate L (VMap (Template srule)) sctx = Inl pe
       \<longrightarrow> generateSingleOperation L srule sctx = Inl (''template processing failed: '' @ pe))
   \<and> (processTemplate L (VMap (Template srule)) sctx = Inr (VMap m) \<and>
       wrapOperation (Type srule) (if Verb srule = '''' then ''set'' else Verb srule) m = Inl we
       \<longrightarrow> generateSingleOperation L srule sctx = Inl we)"
proof (intro conjI impI)
  show "\<exists>operations new. GenerateOperations L ctx config lg = (Inr operations, lg @ new)"
    by (simp add: GenerateOperations_eq)
next
  assume a: "(Condition rule \<noteq> '''' \<and> evaluateTemplate L (Condition rule) ctx = Inl e \<and>
        msg = ''[WARN] Failed to evaluate condition for '' @ Key ctx @ '': '' @ e)
       \<or> (condition_passes L ctx rule \<and> Foreach rule \<noteq> '''' \<and>
           evaluateForeach L (Foreach rule) ctx = Inl e \<and>
           msg = ''[WARN] Failed to process foreach for '' @ Key ctx @ '': '' @ e)
       \<or> (condition_passes L ctx rule \<and> Foreach rule = '''' \<and>
           generateSingleOperation L rule ctx = Inl e \<and>
           msg = ''[WARN] Failed to generate operation for '' @ Key ctx @ '': '' @ e)"
  have u: "rule_ops L ctx rule = [] \<and> rule_log L ctx rule = [msg]"
    using a condition_error_unit[of rule L ctx e] foreach_error_unit[of L ctx rule e]
      single_error_unit[of L ctx rule e]
    by blast
  from u show "GenerateOperations_loop L ctx (rule # rules) (ops, l)
           = GenerateOperations_loop L ctx rules (ops, l @ [msg])"
    by (intro failed_rule_skipped(1)) simp_all
  from u show "GenerateOperations L ctx \<lparr>Operations = before @ rule # after\<rparr> lg
           = (fst (GenerateOperations L ctx \<lparr>Operations = before @ after\<rparr> lg),
              snd (GenerateOperations L ctx \<lparr>Operations = after\<rparr>
                     (snd (GenerateOperations L ctx \<lparr>Operations = before\<rparr> lg) @ [msg])))"
    by (intro failed_rule_skipped(2)) simp_all
next
  assume a: "generateSingleOperation L frule (itemCtx ctx item) = Inl ie \<and>
       imsg = ''[WARN] Failed to generate operation for item in '' @ Key ctx @ '': '' @ ie"
  then have u: "item_ops L frule ctx item = [] \<and> item_log L frule ctx item = [imsg]"
    using item_error_unit[of L frule ctx item ie] by simp
  from u show "processForeach_loop L frule ctx (xs @ item # ys) (ops, l)
           = processForeach_loop L frule ctx ys
               (fst (processForeach_loop L frule ctx xs (ops, l)),
                snd (processForeach_loop L frule ctx xs (ops, l)) @ [imsg])"
    by (intro failed_item_skipped(1)) simp_all
  assume b: "condition_passes L ctx frule \<and> Foreach frule \<noteq> '''' \<and>
            evaluateForeach L (Foreach frule) ctx = Inr (xs @ item # ys)"
  from u have i1: "item_ops L frule ctx item = []" and i2: "item_log L frule ctx item = [imsg]"
    by simp_all
  from failed_item_skipped(2)[OF i1 i2, of xs ys before after lg] b
  show "GenerateOperations L ctx \<lparr>Operations = before @ frule # after\<rparr> lg
                = (Inr (concat (map (rule_ops L ctx) before)
                        @ concat (map (item_ops L frule ctx) (xs @ ys))
                        @ concat (map (rule_ops L ctx) after)),
                   lg @ concat (map (rule_log L ctx) before)
                      @ concat (map (item_log L frule ctx) xs) @ [imsg]
                      @ concat (map (item_log L frule ctx) ys)
                      @ concat (map (rule_log L ctx) after))"
    by blast
next
  assume "processTemplate L (VMap (Template srule)) sctx = Inl pe"
  then show "generateSingleOperation L srule sctx = Inl (''template processing failed: '' @ pe)"
    by (simp add: generateSingleOperation_def)
next
  assume "processTemplate L (VMap (Template srule)) sctx = Inr (VMap m) \<and>
       wrapOperation (Type srule) (if Verb srule = '''' then ''set'' else Verb srule) m = Inl we"
  then show "generateSingleOperation L srule sctx = Inl we"
    by (simp add: generateSingleOperation_def)
qed

theorem GenerateOperations_never_fails_witness:
  "(\<exists>e. evaluateTemplate demo_lib (Condition failing_condition_rule) node_003 = Inl e \<and>
        GenerateOperations demo_lib node_003
          \<lparr>Operations = [node_rule, failing_condition_rule, node_rule]\<rparr> []
        = (fst (GenerateOperations demo_lib node_003 \<lparr>Operations = [node_rule, node_rule]\<rparr> []),
           [''[WARN] Failed to evaluate condition for test-node-003: '' @ e]))
   \<and> (\<exists>e. evaluateForeach demo_lib (Foreach failing_foreach_rule) node_003 = Inl e \<and>
        GenerateOperations demo_lib node_003
          \<lparr>Operations = [node_rule, failing_foreach_rule, node_rule]\<rparr> []
        = (fst (GenerateOperations demo_lib node_003 \<lparr>Operations = [node_rule, node_rule]\<rparr> []),
           [''[WARN] Failed to process foreach for test-node-003: '' @ e]))
   \<and> (processTemplate demo_lib (VMap (Template nodeless_rule)) node_003
        = Inr (VMap nodeless_data) \<and>
       wrapOperation (Type nodeless_rule) ''set'' nodeless_data
        = Inl ''invalid service operation: missing Node or Service'' \<and>
       generateSingleOperation demo_lib nodeless_rule node_003
        = Inl ''invalid service operation: missing Node or Service'' \<and>
       GenerateOperations demo_lib node_003
          \<lparr>Operations = [node_rule, nodeless_rule, node_rule]\<rparr> []
        = (fst (GenerateOperations demo_lib node_003 \<lparr>Operations = [node_rule, node_rule]\<rparr> []),
           [''[WARN] Failed to generate operation for test-node-003: invalid service operation: missing Node or Service'']))
   \<and> (evaluateForeach demo_lib (Foreach item_node_rule) node_004
        = Inr ([VMap [(''node'', VStr ''n1''), (''item1'', VStr ''sub1'')]]
               @ VMap [(''item1'', VStr ''sub2'')]
               # [VMap [(''node'', VStr ''n3''), (''item1'', VStr ''sub3'')]]) \<and>
       generateSingleOperation demo_lib item_node_rule
          (itemCtx node_004 (VMap [(''item1'', VStr ''sub2'')]))
        = Inl ''invalid service operation: missing Node or Service'' \<and>
       GenerateOperations demo_lib node_004 \<lparr>Operations = [item_node_rule]\<rparr> []
        = (Inr [ [(''Service'', VMap [(''Verb'', VStr ''set''), (''Node'', VStr ''n1''),
                                     (''Service'', VMap [(''ID'', VStr ''sub1'')])])],
                [(''Service'', VMap [(''Verb'', VStr ''set''), (''Node'', VStr ''n3''),
                                     (''Service'', VMap [(''ID'', VStr ''sub3'')])])]],
           [''[WARN] Failed to generate operation for item in test-node-004: invalid service operation: missing Node or Service'']))
   \<and> (\<exists>pe. processTemplate demo_lib (VMap (Template failing_template_rule)) node_003 = Inl pe \<and>
        generateSingleOperation demo_lib failing_template_rule node_003
        = Inl (''template processing failed: '' @ pe))"
proof -
  let ?two = "fst (GenerateOperations demo_lib node_003 \<lparr>Operations = [node_rule, node_rule]\<rparr> [])"
  let ?missing = "''invalid service operation: missing Node or Service''"
  have quiet: "rule_log demo_lib node_003 node_rule = []"
    by code_simp
  have after: "snd (GenerateOperations demo_lib node_003 \<lparr>Operations = [node_rule]\<rparr> l) = l" for l
    by (simp add: GenerateOperations_eq quiet)
  have k3: "Key node_003 = ''test-node-003''"
    by (simp add: node_003_def)
  have k4: "Key node_004 = ''test-node-004''"
    by (simp add: node_004_def)

  have c0: "Condition failing_condition_rule \<noteq> ''''"
    by (simp add: failing_condition_rule_def)
  have c1: "evaluateTemplate demo_lib (Condition failing_condition_rule) node_003
            = Inl ''template execution error: nil pointer evaluating interface {}.name''"
    by code_simp
  note t1 = GenerateOperations_never_fails[where L = demo_lib and ctx = node_003
         and rule = failing_condition_rule and before = "[node_rule]" and after = "[node_rule]"
         and lg = "[]"
         and e = "''template execution error: nil pointer evaluating interface {}.name''"
         and msg = "''[WARN] Failed to evaluate condition for '' @ Key node_003 @ '': ''
                    @ ''template execution error: nil pointer evaluating interface {}.name''",
         THEN conjunct2, THEN conjunct1, THEN mp, THEN conjunct2,
         OF disjI1, OF conjI, OF c0, OF conjI, OF c1 refl]
  have r1: "GenerateOperations demo_lib node_003
          \<lparr>Operations = [node_rule, failing_condition_rule, node_rule]\<rparr> []
        = (?two,
           [''[WARN] Failed to evaluate condition for test-node-003: ''
            @ ''template execution error: nil pointer evaluating interface {}.name''])"
    using t1 by (simp add: after k3)

  have f0: "condition_passes demo_lib node_003 failing_foreach_rule"
    by (simp add: condition_passes_def failing_foreach_rule_def)
  have f0': "Foreach failing_foreach_rule \<noteq> ''''"
    by (simp add: failing_foreach_rule_def)
  have f1: "evaluateForeach demo_lib (Foreach failing_foreach_rule) node_003
            = Inl ''invalid foreach expression: malformed or unsupported action''"
    by code_simp
  note t2 = GenerateOperations_never_fails[where L = demo_lib and ctx = node_003
         and rule = failing_foreach_rule and before = "[node_rule]" and after = "[node_rule]"
         and lg = "[]"
         and e = "''invalid foreach expression: malformed or unsupported action''"
         and msg = "''[WARN] Failed to process foreach for '' @ Key node_003 @ '': ''
                    @ ''invalid foreach expression: malformed or unsupported action''",
         THEN conjunct2, THEN conjunct1, THEN mp, THEN conjunct2,
         OF disjI2, OF disjI1, OF conjI, OF f0, OF conjI, OF f0', OF conjI, OF f1 refl]
  have r2: "GenerateOperations demo_lib node_003
          \<lparr>Operations = [node_rule, failing_foreach_rule, node_rule]\<rparr> []
        = (?two,
           [''[WARN] Failed to process foreach for test-node-003: ''
            @ ''invalid foreach expression: malformed or unsupported action''])"
    using t2 by (simp add: after k3)

  have w1: "processTemplate demo_lib (VMap (Template nodeless_rule)) node_003
            = Inr (VMap nodeless_data)"
    by code_simp
  have w2: "wrapOperation (Type nodeless_rule)
              (if Verb nodeless_rule = '''' then ''set'' else Verb nodeless_rule) nodeless_data
            = Inl ?missing"
    by code_simp
  have w3: "wrapOperation (Type nodeless_rule) ''set'' nodeless_data = Inl ?missing"
    using w2 by (simp add: nodeless_rule_def)
  note s1 = GenerateOperations_never_fails[where L = demo_lib and srule = nodeless_rule
         and sctx = node_003 and m = nodeless_data and we = ?missing,
         THEN conjunct2, THEN conjunct2, THEN conjunct2, THEN conjunct2, THEN mp,
         OF conjI, OF w1 w2]
  have s0: "condition_passes demo_lib node_003 nodeless_rule"
    by (simp add: condition_passes_def nodeless_rule_def)
  have s0': "Foreach nodeless_rule = ''''"
    by (simp add: nodeless_rule_def)
  note t3 = GenerateOperations_never_fails[where L = demo_lib and ctx = node_003
         and rule = nodeless_rule and before = "[node_rule]" and after = "[node_rule]"
         and lg = "[]" and e = ?missing
         and msg = "''[WARN] Failed to generate operation for '' @ Key node_003 @ '': ''
                    @ ?missing",
         THEN conjunct2, THEN conjunct1, THEN mp, THEN conjunct2,
         OF disjI2, OF disjI2, OF conjI, OF s0, OF conjI, OF s0', OF conjI, OF s1 refl]
  have r3: "GenerateOperations demo_lib node_003
          \<lparr>Operations = [node_rule, nodeless_rule, node_rule]\<rparr> []
        = (?two,
           [''[WARN] Failed to generate operation for test-node-003: invalid service operation: missing Node or Service''])"
    using t3 by (simp add: after k3)

  let ?i1 = "VMap [(''node'', VStr ''n1''), (''item1'', VStr ''sub1'')]"
  let ?i2 = "VMap [(''item1'', VStr ''sub2'')]"
  let ?i3 = "VMap [(''node'', VStr ''n3''), (''item1'', VStr ''sub3'')]"
  have i0: "condition_passes demo_lib node_004 item_node_rule"
    by (simp add: condition_passes_def item_node_rule_def)
  have i0': "Foreach item_node_rule \<noteq> ''''"
    by (simp add: item_node_rule_def)
  have i1: "evaluateForeach demo_lib (Foreach item_node_rule) node_004
            = Inr ([?i1] @ ?i2 # [?i3])"
    by code_simp
  have i2: "generateSingleOperation demo_lib item_node_rule (itemCtx node_004 ?i2)
            = Inl ?missing"
    by code_simp
  have o1: "item_ops demo_lib item_node_rule node_004 ?i1
            = [ [(''Service'', VMap [(''Verb'', VStr ''set''), (''Node'', VStr ''n1''),
                                    (''Service'', VMap [(''ID'', VStr ''sub1'')])])]]"
    by code_simp
  have o3: "item_ops demo_lib item_node_rule node_004 ?i3
            = [ [(''Service'', VMap [(''Verb'', VStr ''set''), (''Node'', VStr ''n3''),
                                    (''Service'', VMap [(''ID'', VStr ''sub3'')])])]]"
    by code_simp
  have l1: "item_log demo_lib item_node_rule node_004 ?i1 = []"
    by code_simp
  have l3: "item_log demo_lib item_node_rule node_004 ?i3 = []"
    by code_simp
  note t4 = GenerateOperations_never_fails[where L = demo_lib and ctx = node_004
         and frule = item_node_rule and item = ?i2 and xs = "[?i1]" and ys = "[?i3]"
         and before = "[]" and after = "[]" and lg = "[]" and ie = ?missing
         and imsg = "''[WARN] Failed to generate operation for item in '' @ Key node_004
                     @ '': '' @ ?missing",
         THEN conjunct2, THEN conjunct2, THEN conjunct1, THEN mp, OF conjI, OF i2 refl,
         THEN conjunct2, THEN mp, OF conjI, OF i0, OF conjI, OF i0' i1]
  have r4: "GenerateOperations demo_lib node_004 \<lparr>Operations = [item_node_rule]\<rparr> []
        = (Inr [ [(''Service'', VMap [(''Verb'', VStr ''set''), (''Node'', VStr ''n1''),
                                     (''Service'', VMap [(''ID'', VStr ''sub1'')])])],
                [(''Service'', VMap [(''Verb'', VStr ''set''), (''Node'', VStr ''n3''),
                                     (''Service'', VMap [(''ID'', VStr ''sub3'')])])]],
           [''[WARN] Failed to generate operation for item in test-node-004: invalid service operation: missing Node or Service''])"
    using t4 by (simp add: o1 o3 l1 l3 k4)

  have p1: "processTemplate demo_lib (VMap (Template failing_template_rule)) node_003
            = Inl ''failed to process key Node: template execution error: nil pointer evaluating interface {}.name''"
    by code_simp
  note r5 = GenerateOperations_never_fails[where L = demo_lib and srule = failing_template_rule
         and sctx = node_003,
         THEN conjunct2, THEN conjunct2, THEN conjunct2, THEN conjunct1, THEN mp, OF p1]

  have g1: "\<exists>e. evaluateTemplate demo_lib (Condition failing_condition_rule) node_003
        = Inl e \<and>
        GenerateOperations demo_lib node_003
          \<lparr>Operations = [node_rule, failing_condition_rule, node_rule]\<rparr> []
        = (?two, [''[WARN] Failed to evaluate condition for test-node-003: '' @ e])"
    by (rule exI, rule conjI, rule c1, rule r1)
  have g2: "\<exists>e. evaluateForeach demo_lib (Foreach failing_foreach_rule) node_003
        = Inl e \<and>
        GenerateOperations demo_lib node_003
          \<lparr>Operations = [node_rule, failing_foreach_rule, node_rule]\<rparr> []
        = (?two, [''[WARN] Failed to process foreach for test-node-003: '' @ e])"
    by (rule exI, rule conjI, rule f1, rule r2)
  have g5: "\<exists>pe. processTemplate demo_lib (VMap (Template failing_template_rule))
        node_003 = Inl pe \<and>
        generateSingleOperation demo_lib failing_template_rule node_003
        = Inl (''template processing failed: '' @ pe)"
    by (rule exI, rule conjI, rule p1, rule r5)
  show ?thesis
    by (intro conjI g1 g2 w1 w3 s1 r3 i1 i2 r4 g5)
qed

end
